theory Spec2Isabelle
  imports Main "HOL-Library.Word"
begin

unbundle bit_operations_syntax

section \<open>DeadDrop cryptography module: \<^verbatim>\<open>src/cpp/crypto.cpp\<close>\<close>

text \<open>
  The module exports two C functions, \<^verbatim>\<open>encrypt_file\<close> and \<^verbatim>\<open>decrypt_file\<close>, compiled
  with Emscripten to WebAssembly. Both take raw pointers and explicit lengths, return an
  \<^verbatim>\<open>int\<close> and write their result into a buffer of the caller.

  \<^item> A byte (\<^verbatim>\<open>uint8_t\<close>) is an \<open>8 word\<close>; a buffer is the list of the bytes that lie at a
    pointer, and a pointer is an \<open>option\<close>: \<open>None\<close> is \<^verbatim>\<open>nullptr\<close>.
  \<^item> \<^verbatim>\<open>size_t\<close> is the 32-bit unsigned integer of Emscripten's wasm32 target, \<^verbatim>\<open>int\<close> is
    32 bits and signed: both are \<open>32 word\<close>, an \<^verbatim>\<open>int\<close> being read with \<open>sint\<close>.
    \<^verbatim>\<open>static_cast<int>\<close> of a \<^verbatim>\<open>size_t\<close> keeps the 32 bits (\<open>ucast\<close>).
  \<^item> The buffers of one call are separate values: the model has no aliasing between
    \<^verbatim>\<open>plaintext\<close>, \<^verbatim>\<open>key\<close> and \<^verbatim>\<open>output\<close>.
  \<^item> A call with a buffer shorter than its documented size is undefined behaviour in C++;
    the model's result is then \<open>None\<close>, and nothing is claimed about it.
  \<^item> \<^verbatim>\<open>monocypher.h\<close> is not among the module's sources. The call of \<^verbatim>\<open>crypto_aead_lock\<close>
    passes its two output pointers by position, so which of them receives the tag and which
    the ciphertext is decided by the prototype: the order of the prototype is a parameter of
    the model (\<open>lock_order\<close>), and no theorem assumes one order without saying so.
\<close>

type_synonym byte = "8 word"
type_synonym bytes = "byte list"
type_synonym size_t = "32 word"
type_synonym cint = "32 word"

subsection \<open>The collaborators: the host's random source and Monocypher\<close>

text \<open>
  \<^verbatim>\<open>monocypher.h\<close> and the browser's \<^verbatim>\<open>crypto.getRandomValues\<close> are not part of the module.
  Every call to them is recorded, in order, in the host state, so that "is never invoked"
  is a statement about that record.
\<close>

datatype call =
    Random_values nat
  | Aead_lock bytes bytes bytes bytes
  | Aead_unlock bytes bytes bytes bytes bytes
  | Wipe nat
  | Overrun nat

text \<open>
  The host: \<open>entropy\<close> is the sequence of bytes \<^verbatim>\<open>crypto.getRandomValues\<close> will deliver,
  \<open>drawn\<close> how many of them have been delivered, \<open>calls\<close> the record of the calls made.
  \<open>Overrun n\<close> records that a write of the engine ran \<open>n\<close> bytes past the end of the buffer
  it was pointed into.
\<close>

record host =
  entropy :: "nat \<Rightarrow> byte"
  drawn :: nat
  calls :: "call list"

text \<open>
  The order in which the prototype of \<^verbatim>\<open>crypto_aead_lock\<close> declares its two output pointers.
  \<open>Mac_first\<close> is \<^verbatim>\<open>(mac, cipher_text, key, nonce, ...)\<close>, the order that the local names of
  the call in \<^verbatim>\<open>encrypt_file\<close> assume. \<open>Cipher_text_first\<close> is
  \<^verbatim>\<open>(cipher_text, mac, key, nonce, ...)\<close>, the order in which Monocypher 4 declares the function
  of this name; the call of \<^verbatim>\<open>crypto_aead_unlock\<close> in \<^verbatim>\<open>decrypt_file\<close> follows that release's
  \<^verbatim>\<open>(plain_text, mac, key, nonce, ad, ad_size, cipher_text, text_size)\<close>.
\<close>

datatype lock_order = Mac_first | Cipher_text_first

text \<open>
  The AEAD engine is a parameter of the model.
  \<open>aead_lock_order\<close> is the order of the prototype of \<^verbatim>\<open>crypto_aead_lock\<close>.
  \<open>aead_lock key nonce ad plain_text\<close> is the pair \<open>(mac, cipher_text)\<close> that
  \<^verbatim>\<open>crypto_aead_lock\<close> writes.
  \<open>aead_unlock old mac key nonce ad cipher_text\<close> is the pair of the \<^verbatim>\<open>int\<close> that
  \<^verbatim>\<open>crypto_aead_unlock\<close> returns and of what the \<^verbatim>\<open>plain_text\<close> region holds afterwards,
  \<open>old\<close> being what it held before.
\<close>

record aead =
  aead_lock_order :: lock_order
  aead_lock :: "bytes \<Rightarrow> bytes \<Rightarrow> bytes \<Rightarrow> bytes \<Rightarrow> bytes \<times> bytes"
  aead_unlock :: "bytes \<Rightarrow> bytes \<Rightarrow> bytes \<Rightarrow> bytes \<Rightarrow> bytes \<Rightarrow> bytes \<Rightarrow> cint \<times> bytes"

text \<open>
  The \<^verbatim>\<open>EM_ASM\<close> block: \<^verbatim>\<open>crypto.getRandomValues\<close> on an array of \<open>n\<close> bytes. The module
  has no branch for a failure of the random source (the block returns nothing that
  \<^verbatim>\<open>encrypt_file\<close> could test), so the model's random source always delivers.
\<close>

definition getRandomValues :: "nat \<Rightarrow> host \<Rightarrow> bytes \<times> host" where
  "getRandomValues n h =
     (map (entropy h) [drawn h ..< drawn h + n],
      h\<lparr>drawn := drawn h + n, calls := calls h @ [Random_values n]\<rparr>)"

definition crypto_aead_unlock ::
  "aead \<Rightarrow> bytes \<Rightarrow> bytes \<Rightarrow> bytes \<Rightarrow> bytes \<Rightarrow> bytes \<Rightarrow> bytes \<Rightarrow> host \<Rightarrow> (cint \<times> bytes) \<times> host" where
  "crypto_aead_unlock eng old mac key nonce ad cipher_text h =
     (aead_unlock eng old mac key nonce ad cipher_text,
      h\<lparr>calls := calls h @ [Aead_unlock mac key nonce ad cipher_text]\<rparr>)"

definition crypto_wipe :: "nat \<Rightarrow> host \<Rightarrow> host" where
  "crypto_wipe n h = h\<lparr>calls := calls h @ [Wipe n]\<rparr>"

subsection \<open>Buffers\<close>

text \<open>
  \<open>load buf off n\<close> reads \<open>n\<close> bytes at \<open>buf + off\<close>; \<open>store buf off xs\<close> writes \<open>xs\<close> at
  \<open>buf + off\<close> (what \<^verbatim>\<open>memcpy\<close> and the engine do through a pointer into the buffer).
\<close>

definition load :: "bytes \<Rightarrow> nat \<Rightarrow> nat \<Rightarrow> bytes" where
  "load buf off n = take n (drop off buf)"

definition store :: "bytes \<Rightarrow> nat \<Rightarrow> bytes \<Rightarrow> bytes" where
  "store buf off xs = take off buf @ xs @ drop (off + length xs) buf"

text \<open>
  A write of the engine through a pointer into the caller's buffer. The part of it that
  runs past the end of the buffer lands in the memory behind it, which the model does not
  hold: the buffer keeps the bytes that fall inside it (\<open>store_clipped\<close>), and the number of
  bytes that fall outside is recorded (\<open>overrun\<close>).
\<close>

definition store_clipped :: "bytes \<Rightarrow> nat \<Rightarrow> bytes \<Rightarrow> bytes" where
  "store_clipped buf off xs = take (length buf) (store buf off xs)"

definition overrun :: "bytes \<Rightarrow> nat \<Rightarrow> nat \<Rightarrow> call list" where
  "overrun buf off n = (if length buf < off + n then [Overrun (off + n - length buf)] else [])"

text \<open>
  \<^verbatim>\<open>crypto_aead_lock(arg1, arg2, key, nonce, ad, ad_size, plain_text, text_size)\<close>, with
  \<open>arg1\<close> and \<open>arg2\<close> the offsets into \<open>buf\<close> of the two output pointers, in the order of the
  call. The prototype decides which is the tag's and which the ciphertext's. The engine
  writes the ciphertext, then the tag.
\<close>

definition crypto_aead_lock ::
  "aead \<Rightarrow> bytes \<Rightarrow> nat \<Rightarrow> nat \<Rightarrow> bytes \<Rightarrow> bytes \<Rightarrow> bytes \<Rightarrow> bytes \<Rightarrow> host \<Rightarrow> bytes \<times> host" where
  "crypto_aead_lock eng buf arg1 arg2 key nonce ad plain_text h =
     (let (mac_ptr, cipher_text_ptr) =
            (case aead_lock_order eng of
               Mac_first \<Rightarrow> (arg1, arg2)
             | Cipher_text_first \<Rightarrow> (arg2, arg1));
          (mac, cipher_text) = aead_lock eng key nonce ad plain_text;
          buf1 = store_clipped buf cipher_text_ptr cipher_text;
          buf2 = store_clipped buf1 mac_ptr mac
      in (buf2,
          h\<lparr>calls := calls h @ [Aead_lock key nonce ad plain_text]
                  @ overrun buf cipher_text_ptr (length cipher_text)
                  @ overrun buf mac_ptr (length mac)\<rparr>))"

subsection \<open>\<^verbatim>\<open>encrypt_file\<close>\<close>

text \<open>
  The result is \<open>Some (r, output', h')\<close>: the returned \<^verbatim>\<open>int\<close>, the output buffer and the
  host after the call. \<open>nonce_out\<close>, \<open>ciphertext\<close> and \<open>mac\<close> are the offsets into \<open>output\<close> of
  the three local pointers of the source; the engine is called with \<open>mac\<close> as its first
  argument and \<open>ciphertext\<close> as its second, as the source calls it.
\<close>

definition encrypt_file ::
  "aead \<Rightarrow> bytes option \<Rightarrow> size_t \<Rightarrow> bytes option \<Rightarrow> bytes option \<Rightarrow> host
     \<Rightarrow> (cint \<times> bytes option \<times> host) option" where
  "encrypt_file eng plaintext plaintext_len key output h =
     (if plaintext = None \<or> key = None \<or> output = None \<or> plaintext_len = 0
      then Some (- 1, output, h)
      else if length (the plaintext) < unat plaintext_len \<or> length (the key) < 32
              \<or> length (the output) < unat plaintext_len + 40
      then None
      else
        let (nonce, h1) = getRandomValues 24 h;
            nonce_out = 0;
            ciphertext = 24;
            mac = 24 + unat plaintext_len;
            output1 = store (the output) nonce_out nonce;
            (output2, h2) =
               crypto_aead_lock eng output1 mac ciphertext (load (the key) 0 32) nonce []
                 (load (the plaintext) 0 (unat plaintext_len)) h1;
            h3 = crypto_wipe 24 h2
        in Some (ucast (plaintext_len + 40), Some output2, h3))"

subsection \<open>\<^verbatim>\<open>decrypt_file\<close>\<close>

definition decrypt_file ::
  "aead \<Rightarrow> bytes option \<Rightarrow> size_t \<Rightarrow> bytes option \<Rightarrow> bytes option \<Rightarrow> host
     \<Rightarrow> (cint \<times> bytes option \<times> host) option" where
  "decrypt_file eng encrypted encrypted_len key plaintext h =
     (if encrypted = None \<or> key = None \<or> plaintext = None \<or> encrypted_len < 40
      then Some (- 1, plaintext, h)
      else
        let plaintext_len = encrypted_len - 40 in
        if length (the encrypted) < unat encrypted_len \<or> length (the key) < 32
           \<or> length (the plaintext) < unat plaintext_len
        then None
        else
          let nonce = load (the encrypted) 0 24;
              ciphertext = load (the encrypted) 24 (unat plaintext_len);
              mac = load (the encrypted) (24 + unat plaintext_len) 16;
              ((result, plain), h1) =
                 crypto_aead_unlock eng (load (the plaintext) 0 (unat plaintext_len)) mac
                   (load (the key) 0 32) nonce [] ciphertext h;
              plaintext1 = store (the plaintext) 0 plain
          in Some (if result = 0 then ucast plaintext_len else - 1, Some plaintext1, h1))"


section \<open>Specification vocabulary\<close>

subsection \<open>The envelope\<close>

text \<open>
  The three regions of an envelope \<open>e\<close>: \<open>e[0:24]\<close>, \<open>e[24:len-16]\<close> and \<open>e[len-16:len]\<close>.
\<close>

definition env_nonce :: "bytes \<Rightarrow> bytes" where
  "env_nonce e = take 24 e"

definition env_ciphertext :: "bytes \<Rightarrow> bytes" where
  "env_ciphertext e = take (length e - 40) (drop 24 e)"

definition env_mac :: "bytes \<Rightarrow> bytes" where
  "env_mac e = drop (length e - 16) e"

text \<open>
  The envelope of the wire format for a plaintext \<open>p\<close> sealed under \<open>key\<close> and \<open>nonce\<close>:
  the nonce, then the engine's ciphertext of \<open>p\<close>, then its tag.
\<close>

definition wire_envelope :: "aead \<Rightarrow> bytes \<Rightarrow> bytes \<Rightarrow> bytes \<Rightarrow> bytes" where
  "wire_envelope eng key nonce p =
     nonce @ snd (aead_lock eng key nonce [] p) @ fst (aead_lock eng key nonce [] p)"

text \<open>The 24 bytes the next call to the random source delivers.\<close>

definition fresh_nonce :: "host \<Rightarrow> bytes" where
  "fresh_nonce h = map (entropy h) [drawn h ..< drawn h + 24]"

text \<open>
  The host after a sealing of \<open>p\<close> under \<open>key\<close>: one draw of 24 bytes, one call of the
  engine, one wipe of 24 bytes. The host after an opening of \<open>e\<close>: one call of the engine.
\<close>

definition sealed_host :: "aead \<Rightarrow> bytes \<Rightarrow> bytes \<Rightarrow> host \<Rightarrow> host" where
  "sealed_host eng key p h =
     h\<lparr>drawn := drawn h + 24,
        calls := calls h @ [Random_values 24, Aead_lock key (fresh_nonce h) [] p, Wipe 24]\<rparr>"

definition opened_host :: "bytes \<Rightarrow> bytes \<Rightarrow> host \<Rightarrow> host" where
  "opened_host key e h =
     h\<lparr>calls := calls h @ [Aead_unlock (env_mac e) key (env_nonce e) [] (env_ciphertext e)]\<rparr>"

text \<open>Flipping bit \<open>i\<close> of a buffer (bit \<open>i mod 8\<close> of byte \<open>i div 8\<close>).\<close>

definition tamper :: "nat \<Rightarrow> bytes \<Rightarrow> bytes" where
  "tamper i bs = bs[i div 8 := flip_bit (i mod 8) (bs ! (i div 8))]"

subsection \<open>The contract of the AEAD engine\<close>

text \<open>
  \<^verbatim>\<open>crypto_aead_lock\<close> and \<^verbatim>\<open>crypto_aead_unlock\<close> are Monocypher's; their code is not among
  the module's sources. What the theorems assume of them is stated here, each part in the
  words of the module's specification, and each part for 32-byte keys and 24-byte nonces
  only.
\<close>

text \<open>
  Modelled from the spec: the sizes of what \<^verbatim>\<open>crypto_aead_lock\<close> and \<^verbatim>\<open>crypto_aead_unlock\<close>
  write. Sealing "produces ciphertext (same length as plaintext) and a 16-byte tag"; on opening,
  the "returned plaintext has length \<open>len(envelope) - 40\<close>", the length of the ciphertext.
\<close>

definition aead_sizes :: "aead \<Rightarrow> bool" where
  "aead_sizes eng \<longleftrightarrow>
     (\<forall>key nonce ad p old mac c. length key = 32 \<and> length nonce = 24 \<longrightarrow>
        length (fst (aead_lock eng key nonce ad p)) = 16 \<and>
        length (snd (aead_lock eng key nonce ad p)) = length p \<and>
        (length old = length c \<longrightarrow>
           length (snd (aead_unlock eng old mac key nonce ad c)) = length c))"

text \<open>
  Modelled from the spec: what \<^verbatim>\<open>crypto_aead_unlock\<close> returns on what \<^verbatim>\<open>crypto_aead_lock\<close>
  produced. \<open>aead_open(key, nonce, aad, ciphertext, tag) -> plaintext | verification_failure\<close>,
  with the plaintext "byte-identical to whatever was originally sealed": unlocking what was
  locked with the same key, nonce and associated data returns 0 and the plaintext.
\<close>

definition aead_correct :: "aead \<Rightarrow> bool" where
  "aead_correct eng \<longleftrightarrow>
     (\<forall>key nonce ad p old. length key = 32 \<and> length nonce = 24 \<and> length old = length p \<longrightarrow>
        aead_unlock eng old (fst (aead_lock eng key nonce ad p)) key nonce ad
          (snd (aead_lock eng key nonce ad p)) = (0, p))"


text \<open>
  Modelled from the spec: what \<^verbatim>\<open>crypto_aead_unlock\<close> writes when it rejects. The engine "only
  decrypts/returns plaintext if verification succeeds": an engine that rejects leaves the
  plaintext region as it was.
\<close>

definition aead_reject_untouched :: "aead \<Rightarrow> bool" where
  "aead_reject_untouched eng \<longleftrightarrow>
     (\<forall>key nonce ad old mac c.
        length key = 32 \<and> length nonce = 24 \<and> length mac = 16 \<and> length old = length c \<and>
        fst (aead_unlock eng old mac key nonce ad c) \<noteq> 0 \<longrightarrow>
        snd (aead_unlock eng old mac key nonce ad c) = old)"

text \<open>
  Modelled from the spec: what \<^verbatim>\<open>crypto_aead_unlock\<close> returns on an altered ciphertext or
  tag. The spec's tamper detection ("flipping any single bit in a valid envelope's
  ciphertext or tag region" makes opening fail) as a property of the engine: it rejects
  every ciphertext-and-tag pair that differs in one bit from one it produced. (For a 16-byte tag this is an idealisation: a real engine meets it up to
  a negligible probability of forgery.)
\<close>

definition aead_tamper_evident :: "aead \<Rightarrow> bool" where
  "aead_tamper_evident eng \<longleftrightarrow>
     (\<forall>key nonce ad p old i.
        length key = 32 \<and> length nonce = 24 \<and> length old = length p \<and>
        i < 8 * (length p + 16) \<longrightarrow>
        fst (aead_unlock eng old
               (drop (length p)
                  (tamper i (snd (aead_lock eng key nonce ad p) @ fst (aead_lock eng key nonce ad p))))
               key nonce ad
               (take (length p)
                  (tamper i (snd (aead_lock eng key nonce ad p) @ fst (aead_lock eng key nonce ad p)))))
          \<noteq> 0)"

subsection \<open>An engine that meets the contract\<close>

text \<open>
  A small executable engine, to run the model on concrete inputs: the ciphertext is the
  plaintext XORed with a pad byte derived from key and nonce, the tag is a checksum of the
  ciphertext. It meets every part of the contract above (it is not a secure cipher).
  \<open>xor_engine\<close> has the prototype order of Monocypher 4, \<open>xor_engine_mac_first\<close> the order
  that the local names of \<^verbatim>\<open>encrypt_file\<close> assume.
\<close>

definition xor_sum :: "bytes \<Rightarrow> byte" where
  "xor_sum bs = foldr (XOR) bs 0"

definition xor_pad :: "bytes \<Rightarrow> bytes \<Rightarrow> byte" where
  "xor_pad key nonce = xor_sum (key @ nonce)"

definition xor_mac :: "bytes \<Rightarrow> bytes \<Rightarrow> bytes \<Rightarrow> bytes \<Rightarrow> bytes" where
  "xor_mac key nonce ad c =
     (xor_sum c XOR xor_sum ad XOR xor_pad key nonce) # replicate 15 (xor_pad key nonce)"

definition xor_lock :: "bytes \<Rightarrow> bytes \<Rightarrow> bytes \<Rightarrow> bytes \<Rightarrow> bytes \<times> bytes" where
  "xor_lock key nonce ad p =
     (xor_mac key nonce ad (map ((XOR) (xor_pad key nonce)) p), map ((XOR) (xor_pad key nonce)) p)"

definition xor_unlock :: "bytes \<Rightarrow> bytes \<Rightarrow> bytes \<Rightarrow> bytes \<Rightarrow> bytes \<Rightarrow> bytes \<Rightarrow> cint \<times> bytes" where
  "xor_unlock old mac key nonce ad c =
     (if mac = xor_mac key nonce ad c then (0, map ((XOR) (xor_pad key nonce)) c) else (- 1, old))"

definition xor_engine :: aead where
  "xor_engine =
     \<lparr>aead_lock_order = Cipher_text_first, aead_lock = xor_lock, aead_unlock = xor_unlock\<rparr>"

definition xor_engine_mac_first :: aead where
  "xor_engine_mac_first = xor_engine\<lparr>aead_lock_order := Mac_first\<rparr>"

definition test_host :: host where
  "test_host = \<lparr>entropy = (\<lambda>i. of_nat (7 * i + 3)), drawn = 0, calls = []\<rparr>"

text \<open>
  Test data: the five bytes of "hello", a key of 32 bytes \<open>0x01\<close>, and the 45 bytes that
  \<^verbatim>\<open>encrypt_file\<close> leaves in a buffer of zeros when it seals "hello" under that key with
  the nonce of \<open>test_host\<close> and the prototype order of Monocypher 4: the nonce, the tag,
  five untouched bytes.
\<close>

definition hello :: bytes where
  "hello = [104, 101, 108, 108, 111]"

definition key_ones :: bytes where
  "key_ones = replicate 32 1"

definition hello_swapped :: bytes where
  "hello_swapped =
     [3, 10, 17, 24, 31, 38, 45, 52, 59, 66, 73, 80, 87, 94, 101, 108, 115, 122, 129, 136,
      143, 150, 157, 164]
     @ [98, 96, 96, 96, 96, 96, 96, 96, 96, 96, 96, 96, 96, 96, 96, 96]
     @ [0, 0, 0, 0, 0]"

section \<open>Basic facts\<close>

lemma length_fresh_nonce: "length (fresh_nonce h) = 24"
  by (simp add: fresh_nonce_def)

lemma aead_sizesD:
  assumes "aead_sizes eng" "length key = 32" "length nonce = 24"
  shows "length (fst (aead_lock eng key nonce ad p)) = 16"
    and "length (snd (aead_lock eng key nonce ad p)) = length p"
    and "length old = length c \<Longrightarrow> length (snd (aead_unlock eng old mac key nonce ad c)) = length c"
  using assms unfolding aead_sizes_def by blast+


lemma length_store_clipped: "length (store_clipped buf off xs) = length buf"
  by (simp add: store_clipped_def store_def)

lemma store_clipped_inside:
  "off + length xs \<le> length buf \<Longrightarrow> store_clipped buf off xs = store buf off xs"
  by (simp add: store_clipped_def store_def)

lemma encrypt_file_run:
  assumes len: "plaintext_len \<noteq> 0" "length p = unat plaintext_len"
    and key: "length key = 32"
    and out: "length out = unat plaintext_len + 40"
  shows "encrypt_file eng (Some p) plaintext_len (Some key) (Some out) h =
           Some (ucast (plaintext_len + 40),
                 Some (fst (crypto_aead_lock eng (fresh_nonce h @ drop 24 out)
                              (24 + unat plaintext_len) 24 key (fresh_nonce h) [] p
                              (snd (getRandomValues 24 h)))),
                 crypto_wipe 24
                   (snd (crypto_aead_lock eng (fresh_nonce h @ drop 24 out)
                              (24 + unat plaintext_len) 24 key (fresh_nonce h) [] p
                              (snd (getRandomValues 24 h)))))"
proof -
  have s1: "store out 0 (fresh_nonce h) = fresh_nonce h @ drop 24 out"
    by (simp add: store_def length_fresh_nonce)
  have g: "fst (getRandomValues 24 h) = fresh_nonce h"
    by (simp add: getRandomValues_def fresh_nonce_def)
  show ?thesis
    using len key out
    by (simp add: encrypt_file_def load_def split_def Let_def g s1)
qed

lemma encrypt_file_returns:
  assumes len: "plaintext_len \<noteq> 0" "length p = unat plaintext_len"
    and key: "length key = 32"
    and out: "length out = unat plaintext_len + 40"
  shows "\<exists>env h'. encrypt_file eng (Some p) plaintext_len (Some key) (Some out) h =
           Some (ucast (plaintext_len + 40), Some env, h') \<and> length env = length out"
proof -
  have "length (fst (crypto_aead_lock eng (fresh_nonce h @ drop 24 out)
                              (24 + unat plaintext_len) 24 key (fresh_nonce h) [] p
                              (snd (getRandomValues 24 h)))) = length out"
    using out
    by (simp add: crypto_aead_lock_def split_def Let_def length_store_clipped length_fresh_nonce)
  then show ?thesis
    using encrypt_file_run[OF len key out, of eng h] by simp
qed

lemma lock_mac_first:
  assumes ord: "aead_lock_order eng = Mac_first"
    and n: "length n = 24"
    and c: "length (snd (aead_lock eng key n ad p)) = length p"
    and m: "length (fst (aead_lock eng key n ad p)) = 16"
    and rest: "length rest = length p + 16"
  shows "crypto_aead_lock eng (n @ rest) (24 + length p) 24 key n ad p h =
           (n @ snd (aead_lock eng key n ad p) @ fst (aead_lock eng key n ad p),
            h\<lparr>calls := calls h @ [Aead_lock key n ad p]\<rparr>)"
proof -
  let ?c = "snd (aead_lock eng key n ad p)"
  let ?m = "fst (aead_lock eng key n ad p)"
  have s2: "store_clipped (n @ rest) 24 ?c = n @ ?c @ drop (length p) rest"
    using n c rest by (simp add: store_clipped_def store_def)
  have s3: "store_clipped (n @ ?c @ drop (length p) rest) (24 + length p) ?m = n @ ?c @ ?m"
    using n c m rest by (simp add: store_clipped_def store_def)
  have o: "overrun (n @ rest) 24 (length ?c) = []" "overrun (n @ rest) (24 + length p) (length ?m) = []"
    using n c m rest by (simp_all add: overrun_def)
  show ?thesis
    by (simp add: crypto_aead_lock_def ord split_def Let_def s2 s3 o)
qed

lemma lock_cipher_text_first:
  assumes ord: "aead_lock_order eng = Cipher_text_first"
    and n: "length n = 24"
    and c: "length (snd (aead_lock eng key n ad p)) = length p"
    and m: "length (fst (aead_lock eng key n ad p)) = 16"
    and rest: "length rest = length p + 16"
  shows "crypto_aead_lock eng (n @ rest) (24 + length p) 24 key n ad p h =
           (n @ fst (aead_lock eng key n ad p)
              @ drop 16 (take (length p + 16)
                  (take (length p) rest @ snd (aead_lock eng key n ad p) @ drop (2 * length p) rest)),
            h\<lparr>calls := calls h @ [Aead_lock key n ad p]
                    @ (if 16 < length p then [Overrun (length p - 16)] else [])\<rparr>)"
proof -
  define c' where "c' = snd (aead_lock eng key n ad p)"
  define m' where "m' = fst (aead_lock eng key n ad p)"
  define y where "y = take (length p) rest @ c' @ drop (2 * length p) rest"
  define x where "x = take (length p + 16) y"
  have lc: "length c' = length p" and lm: "length m' = 16"
    using c m by (simp_all add: c'_def m'_def)
  have ly: "length p + 16 \<le> length y"
    using rest lc by (simp add: y_def)
  have lx: "length x = length p + 16"
    using ly by (simp add: x_def)
  have t1: "take (24 + length p) (n @ rest) = n @ take (length p) rest"
    using n by simp
  have d1: "drop (24 + length p + length c') (n @ rest) = drop (2 * length p) rest"
    using n lc by simp
  have st: "store (n @ rest) (24 + length p) c' = n @ y"
    unfolding store_def t1 d1 y_def by simp
  have s2: "store_clipped (n @ rest) (24 + length p) c' = n @ x"
    unfolding store_clipped_def st x_def using n rest by (simp add: add.commute)
  have s3: "store_clipped (n @ x) 24 m' = n @ m' @ drop 16 x"
    unfolding store_clipped_def store_def using n lm lx by simp
  have o1: "overrun (n @ rest) (24 + length p) (length c')
             = (if 16 < length p then [Overrun (length p - 16)] else [])"
    unfolding overrun_def lc using n rest by simp
  have o2: "overrun (n @ rest) 24 (length m') = []"
    unfolding overrun_def lm using n rest by simp
  have main: "crypto_aead_lock eng (n @ rest) (24 + length p) 24 key n ad p h =
          (store_clipped (store_clipped (n @ rest) (24 + length p) c') 24 m',
           h\<lparr>calls := calls h @ [Aead_lock key n ad p]
                  @ overrun (n @ rest) (24 + length p) (length c')
                  @ overrun (n @ rest) 24 (length m')\<rparr>)"
    by (simp add: crypto_aead_lock_def ord split_def Let_def c'_def m'_def)
  show ?thesis
    unfolding main s2 s3 o1 o2 append_Nil2
    unfolding x_def y_def c'_def m'_def
    by (rule refl)
qed

lemma encrypt_file_sealed:
  assumes ord: "aead_lock_order eng = Mac_first"
    and sz: "aead_sizes eng"
    and len: "plaintext_len \<noteq> 0" "length p = unat plaintext_len"
    and key: "length key = 32"
    and out: "length out = unat plaintext_len + 40"
  shows "encrypt_file eng (Some p) plaintext_len (Some key) (Some out) h =
           Some (ucast (plaintext_len + 40),
                 Some (fresh_nonce h @ snd (aead_lock eng key (fresh_nonce h) [] p)
                         @ fst (aead_lock eng key (fresh_nonce h) [] p)),
                 sealed_host eng key p h)"
proof -
  note n = length_fresh_nonce[of h]
  have rest: "length (drop 24 out) = length p + 16" using out len by simp
  have N: "24 + unat plaintext_len = 24 + length p" using len by simp
  show ?thesis
    unfolding encrypt_file_run[OF len key out] N
      lock_mac_first[OF ord n aead_sizesD(2)[OF sz key n] aead_sizesD(1)[OF sz key n] rest]
    by (simp add: getRandomValues_def crypto_wipe_def sealed_host_def fresh_nonce_def)
qed

lemma encrypt_file_swapped:
  assumes ord: "aead_lock_order eng = Cipher_text_first"
    and sz: "aead_sizes eng"
    and len: "plaintext_len \<noteq> 0" "length p = unat plaintext_len"
    and key: "length key = 32"
    and out: "length out = unat plaintext_len + 40"
  shows "encrypt_file eng (Some p) plaintext_len (Some key) (Some out) h =
           Some (ucast (plaintext_len + 40),
                 Some (fresh_nonce h @ fst (aead_lock eng key (fresh_nonce h) [] p)
                         @ drop 16 (take (length p + 16)
                             (take (length p) (drop 24 out)
                                @ snd (aead_lock eng key (fresh_nonce h) [] p)
                                @ drop (2 * length p) (drop 24 out)))),
                 h\<lparr>drawn := drawn h + 24,
                    calls := calls h @ [Random_values 24, Aead_lock key (fresh_nonce h) [] p]
                      @ (if 16 < length p then [Overrun (length p - 16)] else []) @ [Wipe 24]\<rparr>)"
proof -
  note n = length_fresh_nonce[of h]
  have rest: "length (drop 24 out) = length p + 16" using out len by simp
  have N: "24 + unat plaintext_len = 24 + length p" using len by simp
  show ?thesis
    unfolding encrypt_file_run[OF len key out] N
      lock_cipher_text_first[OF ord n aead_sizesD(2)[OF sz key n] aead_sizesD(1)[OF sz key n] rest]
    by (simp add: getRandomValues_def crypto_wipe_def fresh_nonce_def del: take_append drop_append)
qed

lemma unat_len_minus_40:
  fixes n :: size_t
  assumes "\<not> n < 40"
  shows "unat (n - 40) = unat n - 40"
  using assms by (simp add: unat_sub not_less)

lemma decrypt_file_run:
  assumes len: "\<not> encrypted_len < 40" "length e = unat encrypted_len"
    and key: "length key = 32"
    and pt: "length pt = unat encrypted_len - 40"
  shows "decrypt_file eng (Some e) encrypted_len (Some key) (Some pt) h =
           Some (if fst (aead_unlock eng pt (env_mac e) key (env_nonce e) [] (env_ciphertext e)) = 0
                 then encrypted_len - 40 else - 1,
                 Some (store pt 0
                   (snd (aead_unlock eng pt (env_mac e) key (env_nonce e) [] (env_ciphertext e)))),
                 opened_host key e h)"
proof -
  have u: "unat (encrypted_len - 40) = unat encrypted_len - 40"
    by (rule unat_len_minus_40[OF len(1)])
  have ge: "40 \<le> unat encrypted_len"
    using len(1) by (simp add: word_less_nat_alt)
  have m: "take 16 (drop (24 + (unat encrypted_len - 40)) e) = drop (length e - 16) e"
    using ge len(2) by simp
  show ?thesis
    using len key pt ge
    by (simp add: decrypt_file_def crypto_aead_unlock_def load_def split_def Let_def u m
        env_nonce_def env_ciphertext_def env_mac_def opened_host_def)
qed

lemma env_parts:
  assumes "length n = 24" "length m = 16"
  shows "env_nonce (n @ c @ m) = n" "env_ciphertext (n @ c @ m) = c" "env_mac (n @ c @ m) = m"
  using assms by (simp_all add: env_nonce_def env_ciphertext_def env_mac_def)

lemma xor_twice: "(XOR) (k::byte) \<circ> (XOR) k = id"
  by (rule ext) (simp add: xor.assoc[symmetric])

lemma xor_cancel_right: "(a XOR z = b XOR z) = (a = (b::byte))"
proof
  assume "a XOR z = b XOR z"
  then have "(a XOR z) XOR z = (b XOR z) XOR z" by simp
  then show "a = b" by (simp add: xor.assoc)
qed simp

lemma length_xor_mac: "length (xor_mac key nonce ad c) = 16"
  by (simp add: xor_mac_def)

lemma xor_engine_sizes: "aead_sizes xor_engine"
  by (simp add: aead_sizes_def xor_engine_def xor_lock_def xor_unlock_def length_xor_mac)

lemma xor_engine_correct: "aead_correct xor_engine"
  by (simp add: aead_correct_def xor_engine_def xor_lock_def xor_unlock_def xor_twice)


lemma xor_engine_reject_untouched: "aead_reject_untouched xor_engine"
  by (simp add: aead_reject_untouched_def xor_engine_def xor_unlock_def)

lemma flip_bit_neq:
  fixes b :: byte
  assumes "j < 8"
  shows "flip_bit j b \<noteq> b"
proof
  assume "flip_bit j b = b"
  then have "bit (flip_bit j b) j = bit b j" by simp
  with assms show False by (simp add: bit_flip_bit_iff)
qed

lemma xor_sum_Cons: "xor_sum (b # bs) = b XOR xor_sum bs"
  by (simp add: xor_sum_def)

lemma xor_sum_update:
  "k < length bs \<Longrightarrow> xor_sum (bs[k := flip_bit j (bs ! k)]) = flip_bit j (xor_sum bs)"
proof (induction bs arbitrary: k)
  case Nil
  then show ?case by simp
next
  case (Cons b bs)
  show ?case
  proof (cases k)
    case 0
    then show ?thesis
      by (simp add: xor_sum_Cons flip_bit_eq_xor xor.assoc xor.commute xor.left_commute)
  next
    case (Suc k')
    with Cons show ?thesis
      by (simp add: xor_sum_Cons flip_bit_eq_xor xor.assoc xor.commute xor.left_commute)
  qed
qed

lemma length_tamper: "length (tamper i bs) = length bs"
  by (simp add: tamper_def)

lemma tamper_neq:
  assumes "i < 8 * length bs"
  shows "tamper i bs \<noteq> bs"
proof
  assume eq: "tamper i bs = bs"
  from assms have k: "i div 8 < length bs" by auto
  have "tamper i bs ! (i div 8) = flip_bit (i mod 8) (bs ! (i div 8))"
    using k by (simp add: tamper_def)
  with eq have "flip_bit (i mod 8) (bs ! (i div 8)) = bs ! (i div 8)" by simp
  then show False using flip_bit_neq[of "i mod 8"] by simp
qed

lemma tamper_append:
  "tamper i (xs @ ys) =
     (if i < 8 * length xs then tamper i xs @ ys else xs @ tamper (i - 8 * length xs) ys)"
proof (cases "i < 8 * length xs")
  case True
  then have "i div 8 < length xs" by auto
  then show ?thesis using True by (simp add: tamper_def list_update_append nth_append)
next
  case False
  then have ge: "length xs \<le> i div 8" by auto
  obtain j where j: "i = 8 * length xs + j"
    using False by (metis le_add_diff_inverse not_less)
  have d: "(i - 8 * length xs) div 8 = i div 8 - length xs"
    by (simp add: j)
  have m: "(i - 8 * length xs) mod 8 = i mod 8"
    by (simp add: j)
  show ?thesis using False ge by (simp add: tamper_def list_update_append nth_append d m)
qed

lemma xor_engine_tamper_evident: "aead_tamper_evident xor_engine"
proof -
  have main: "fst (xor_unlock old (drop (length p) (tamper i (c @ xor_mac key nonce ad c))) key nonce ad
               (take (length p) (tamper i (c @ xor_mac key nonce ad c)))) \<noteq> 0"
    if c: "length c = length p" and i: "i < 8 * (length p + 16)"
    for old key nonce ad p c :: bytes and i :: nat
  proof (cases "i < 8 * length c")
    case True
    then have k: "i div 8 < length c" by auto
    have "xor_sum (tamper i c) = flip_bit (i mod 8) (xor_sum c)"
      using k by (simp add: tamper_def xor_sum_update)
    then have "xor_sum (tamper i c) \<noteq> xor_sum c"
      using flip_bit_neq[of "i mod 8" "xor_sum c"] by simp
    then have "xor_mac key nonce ad c \<noteq> xor_mac key nonce ad (tamper i c)"
      by (simp add: xor_mac_def xor_cancel_right)
    then show ?thesis
      using True c by (simp add: tamper_append length_tamper xor_unlock_def)
  next
    case False
    have "i - 8 * length c < 8 * length (xor_mac key nonce ad c)"
      using False i c by (simp add: length_xor_mac)
    then have "tamper (i - 8 * length c) (xor_mac key nonce ad c) \<noteq> xor_mac key nonce ad c"
      by (rule tamper_neq)
    then show ?thesis
      using False c by (simp add: tamper_append xor_unlock_def)
  qed
  show ?thesis
    unfolding aead_tamper_evident_def
  proof (intro allI impI)
    fix key nonce ad p old :: bytes and i :: nat
    assume "length key = 32 \<and> length nonce = 24 \<and> length old = length p \<and>
        i < 8 * (length p + 16)"
    then show "fst (aead_unlock xor_engine old
               (drop (length p)
                  (tamper i (snd (aead_lock xor_engine key nonce ad p) @ fst (aead_lock xor_engine key nonce ad p))))
               key nonce ad
               (take (length p)
                  (tamper i (snd (aead_lock xor_engine key nonce ad p) @ fst (aead_lock xor_engine key nonce ad p)))))
          \<noteq> 0"
      using main[of "map ((XOR) (xor_pad key nonce)) p" p i old key nonce ad]
      by (simp add: xor_engine_def xor_lock_def)
  qed
qed

lemma aead_correctD:
  assumes "aead_correct eng" "length key = 32" "length nonce = 24" "length old = length p"
  shows "aead_unlock eng old (fst (aead_lock eng key nonce ad p)) key nonce ad
           (snd (aead_lock eng key nonce ad p)) = (0, p)"
  using assms unfolding aead_correct_def by blast

lemma store_whole: "length xs = length buf \<Longrightarrow> store buf 0 xs = xs"
  by (simp add: store_def)

lemma envelope_len:
  fixes plaintext_len :: size_t
  assumes "unat plaintext_len + 40 < 2 ^ 32"
  shows "unat (plaintext_len + 40) = unat plaintext_len + 40"
    and "\<not> plaintext_len + 40 < 40"
    and "plaintext_len \<noteq> - 1"
proof -
  show u: "unat (plaintext_len + 40) = unat plaintext_len + 40"
    using assms by (simp add: unat_add_lem[THEN iffD1])
  then show "\<not> plaintext_len + 40 < 40"
    by (simp add: word_less_nat_alt)
  show "plaintext_len \<noteq> - 1"
  proof
    assume "plaintext_len = - 1"
    then have "unat plaintext_len = 2 ^ 32 - 1"
      by (simp add: unsigned_minus_1_eq_mask mask_eq_exp_minus_1)
    with assms show False by simp
  qed
qed

lemma sint_unfold:
  fixes x :: "'a::len word"
  shows "sint x = (if uint x < 2 ^ (LENGTH('a) - 1) then uint x else uint x - 2 ^ LENGTH('a))"
proof -
  define n where "n = LENGTH('a) - 1"
  have L: "LENGTH('a) = Suc n" by (simp add: n_def)
  have b: "uint x < 2 ^ Suc n" using uint_bounded[of x] by (simp add: L)
  have nn: "0 \<le> uint x" by simp
  have s: "sint x = (uint x + 2 ^ n) mod 2 ^ Suc n - 2 ^ n"
    unfolding sint_uint L by (simp add: signed_take_bit_eq_take_bit_shift take_bit_eq_mod)
  show ?thesis
  proof (cases "uint x < 2 ^ n")
    case True
    then have "(uint x + 2 ^ n) mod 2 ^ Suc n = uint x + 2 ^ n"
      using nn by (intro mod_pos_pos_trivial) simp_all
    with True s show ?thesis by (simp add: n_def)
  next
    case False
    have "(uint x + 2 ^ n) mod 2 ^ Suc n = (uint x + 2 ^ n - 2 ^ Suc n) mod 2 ^ Suc n"
      by (simp only: minus_mod_self2)
    also have "\<dots> = uint x + 2 ^ n - 2 ^ Suc n"
      using False b by (intro mod_pos_pos_trivial) simp_all
    finally show ?thesis using False s by (simp add: n_def[symmetric] L)
  qed
qed

lemma sint_cint:
  fixes x :: cint
  shows "sint x = (if unat x < 2147483648 then int (unat x) else int (unat x) - 4294967296)"
proof -
  have u: "uint x = int (unat x)"
    by (rule uint_nat)
  have c: "(uint x < 2147483648) = (unat x < 2147483648)"
    unfolding u by linarith
  have "sint x = (if uint x < 2147483648 then uint x else uint x - 4294967296)"
    using sint_unfold[of x] by simp
  then show ?thesis
    unfolding c unfolding u .
qed

lemma unat_cint_lt: "unat (x :: cint) < 4294967296"
  using unsigned_less[of x, where 'a=nat] by simp

lemma unat_plus_40:
  fixes n :: size_t
  shows "unat (n + 40) = (if unat n + 40 < 4294967296 then unat n + 40 else unat n + 40 - 4294967296)"
proof -
  have b: "unat n < 4294967296" by (rule unat_cint_lt)
  have "unat (n + 40) = (unat n + 40) mod 4294967296"
    by (simp add: unat_word_ariths)
  also have "\<dots> = (if unat n + 40 < 4294967296 then unat n + 40 else unat n + 40 - 4294967296)"
  proof (cases "unat n + 40 < 4294967296")
    case True
    then show ?thesis by simp
  next
    case False
    then have "(unat n + 40) mod 4294967296 = (unat n + 40 - 4294967296) mod 4294967296"
      by (simp add: le_mod_geq)
    also have "\<dots> = unat n + 40 - 4294967296"
      using b by simp
    finally show ?thesis using False by simp
  qed
  finally show ?thesis .
qed

lemma seal_return_value:
  fixes n :: size_t
  shows "sint (n + 40) = int (unat n + 40) \<longleftrightarrow> unat n + 40 \<le> 2147483647"
    and "2147483647 < unat n + 40 \<Longrightarrow> unat n + 40 < 4294967296 \<Longrightarrow> sint (n + 40) < 0"
    and "unat n + 40 \<le> 2147483647 \<Longrightarrow> sint (n + 40) = int (unat n + 40)"
proof -
  define a where "a = unat n"
  define m where "m = unat (n + 40)"
  define s where "s = sint (n + 40)"
  have b: "a < 4294967296" unfolding a_def by (rule unat_cint_lt)
  have u: "m = (if a + 40 < 4294967296 then a + 40 else a + 40 - 4294967296)"
    unfolding a_def m_def by (rule unat_plus_40)
  have v: "s = (if m < 2147483648 then int m else int m - 4294967296)"
    unfolding m_def s_def by (rule sint_cint)
  have "(s = int (a + 40)) = (a + 40 \<le> 2147483647)"
    using b u v by (auto split: if_splits)
  then show "sint (n + 40) = int (unat n + 40) \<longleftrightarrow> unat n + 40 \<le> 2147483647"
    unfolding a_def s_def .
  have "2147483647 < a + 40 \<Longrightarrow> a + 40 < 4294967296 \<Longrightarrow> s < 0"
    using b u v by (auto split: if_splits)
  then show "2147483647 < unat n + 40 \<Longrightarrow> unat n + 40 < 4294967296 \<Longrightarrow> sint (n + 40) < 0"
    unfolding a_def s_def .
  have "a + 40 \<le> 2147483647 \<Longrightarrow> s = int (a + 40)"
    using b u v by (auto split: if_splits)
  then show "unat n + 40 \<le> 2147483647 \<Longrightarrow> sint (n + 40) = int (unat n + 40)"
    unfolding a_def s_def .
qed

lemma open_return_value:
  fixes n :: size_t
  assumes "\<not> n < 40"
  shows "sint (n - 40) = int (unat n - 40) \<longleftrightarrow> unat n \<le> 2147483647 + 40"
    and "2147483647 + 40 < unat n \<Longrightarrow> sint (n - 40) < 0"
    and "n - 40 \<noteq> - 1"
proof -
  define a where "a = unat n"
  define m where "m = unat (n - 40)"
  define s where "s = sint (n - 40)"
  have b: "a < 4294967296" unfolding a_def by (rule unat_cint_lt)
  have u: "m = a - 40" unfolding a_def m_def by (rule unat_len_minus_40[OF assms])
  have ge: "40 \<le> a" unfolding a_def using assms by (simp add: word_less_nat_alt)
  have v: "s = (if m < 2147483648 then int m else int m - 4294967296)"
    unfolding m_def s_def by (rule sint_cint)
  have "(s = int (a - 40)) = (a \<le> 2147483647 + 40)"
    using b u v ge by (auto split: if_splits)
  then show "sint (n - 40) = int (unat n - 40) \<longleftrightarrow> unat n \<le> 2147483647 + 40"
    unfolding a_def s_def .
  have "2147483647 + 40 < a \<Longrightarrow> s < 0"
    using b u v ge by (auto split: if_splits)
  then show "2147483647 + 40 < unat n \<Longrightarrow> sint (n - 40) < 0"
    unfolding a_def s_def .
  show "n - 40 \<noteq> - 1"
  proof
    assume "n - 40 = - 1"
    then have "m = 4294967295"
      unfolding m_def by (simp add: unsigned_minus_1_eq_mask mask_eq_exp_minus_1)
    with u b show False by simp
  qed
qed

lemma xor_engine_fields:
  "aead_lock xor_engine = xor_lock" "aead_unlock xor_engine = xor_unlock"
  by (simp_all add: xor_engine_def)

lemma xor_envelope_accepted:
  assumes "length key = 32" "length nonce = 24" "length old = length p"
    and "e = nonce @ snd (xor_lock key nonce [] p) @ fst (xor_lock key nonce [] p)"
  shows "aead_unlock xor_engine old (env_mac e) key (env_nonce e) [] (env_ciphertext e) = (0, p)"
proof -
  have m: "length (fst (xor_lock key nonce [] p)) = 16"
    by (simp add: xor_lock_def length_xor_mac)
  show ?thesis
    using aead_correctD[OF xor_engine_correct assms(1-3), of "[]"]
    by (simp add: assms(4) env_parts[OF assms(2) m] xor_engine_fields)
qed

lemma aead_tamper_evidentD:
  assumes "aead_tamper_evident eng" "length key = 32" "length nonce = 24" "length old = length p"
    and "i < 8 * (length p + 16)"
  shows "fst (aead_unlock eng old
               (drop (length p)
                  (tamper i (snd (aead_lock eng key nonce ad p) @ fst (aead_lock eng key nonce ad p))))
               key nonce ad
               (take (length p)
                  (tamper i (snd (aead_lock eng key nonce ad p) @ fst (aead_lock eng key nonce ad p)))))
          \<noteq> 0"
  using assms unfolding aead_tamper_evident_def by blast

lemma aead_reject_untouchedD:
  assumes "aead_reject_untouched eng" "length key = 32" "length nonce = 24" "length mac = 16"
    and "length old = length c"
    and "fst (aead_unlock eng old mac key nonce ad c) \<noteq> 0"
  shows "snd (aead_unlock eng old mac key nonce ad c) = old"
  using assms unfolding aead_reject_untouched_def by blast

lemma decrypt_file_rejected:
  assumes eng: "aead_reject_untouched eng"
    and len: "\<not> encrypted_len < 40" "length e = unat encrypted_len"
    and key: "length key = 32"
    and pt: "length pt = unat encrypted_len - 40"
    and rej: "fst (aead_unlock eng pt (env_mac e) key (env_nonce e) [] (env_ciphertext e)) \<noteq> 0"
  shows "decrypt_file eng (Some e) encrypted_len (Some key) (Some pt) h =
           Some (- 1, Some pt, opened_host key e h)"
proof -
  have ge: "40 \<le> length e" using len by (simp add: word_less_nat_alt)
  have ln: "length (env_nonce e) = 24" using ge by (simp add: env_nonce_def)
  have lm: "length (env_mac e) = 16" using ge by (simp add: env_mac_def)
  have lc: "length pt = length (env_ciphertext e)" using ge pt len by (simp add: env_ciphertext_def)
  have "snd (aead_unlock eng pt (env_mac e) key (env_nonce e) [] (env_ciphertext e)) = pt"
    by (rule aead_reject_untouchedD[OF eng key ln lm lc rej])
  then show ?thesis
    using decrypt_file_run[OF len key pt, of eng h] rej by (simp add: store_whole)
qed

lemma plus_40_eq_minus_1:
  fixes n :: size_t
  shows "n + 40 = - 1 \<longleftrightarrow> n = 4294967255"
proof
  assume a: "n + 40 = - 1"
  have "n = (n + 40) - 40" by simp
  also have "\<dots> = - 1 - 40" by (simp only: a)
  also have "\<dots> = 4294967255" by simp
  finally show "n = 4294967255" .
qed simp

lemma xor_rejects_example:
  "aead_unlock xor_engine [0] (env_mac (replicate 40 0 @ [1])) (replicate 32 0)
     (env_nonce (replicate 40 0 @ [1])) [] (env_ciphertext (replicate 40 0 @ [1])) = (- 1, [0])"
  unfolding xor_engine_fields by code_simp

lemma decrypt_rejects_example:
  "decrypt_file xor_engine (Some (replicate 40 0 @ [1])) 41 (Some (replicate 32 0)) (Some [0]) test_host
     = Some (- 1, Some [0], opened_host (replicate 32 0) (replicate 40 0 @ [1]) test_host)"
  using decrypt_file_run[of 41 "replicate 40 0 @ [1]" "replicate 32 0" "[0]" xor_engine test_host]
  by (simp add: xor_rejects_example store_def)






lemma xor_engine_order: "aead_lock_order xor_engine = Cipher_text_first"
  by (simp add: xor_engine_def)

lemma xor_engine_mac_first_order: "aead_lock_order xor_engine_mac_first = Mac_first"
  by (simp add: xor_engine_mac_first_def)

lemma xor_engine_mac_first_sizes: "aead_sizes xor_engine_mac_first"
  using xor_engine_sizes by (simp add: aead_sizes_def xor_engine_mac_first_def)

lemma wire_envelope_parts:
  assumes "aead_sizes eng" "length key = 32" "length nonce = 24"
  shows "length (wire_envelope eng key nonce p) = length p + 40"
    and "env_mac (wire_envelope eng key nonce p) = fst (aead_lock eng key nonce [] p)"
    and "env_nonce (wire_envelope eng key nonce p) = nonce"
    and "env_ciphertext (wire_envelope eng key nonce p) = snd (aead_lock eng key nonce [] p)"
  using aead_sizesD(1,2)[OF assms, of "[]" p] assms(3)
  by (simp_all add: wire_envelope_def env_parts)

lemma size_t_of_length:
  assumes "n + 40 < (2 :: nat) ^ 32"
  shows "unat (of_nat (n + 40) :: size_t) = n + 40"
    and "\<not> (of_nat (n + 40) :: size_t) < 40"
proof -
  have "unat (of_nat (n + 40) :: size_t) = (n + 40) mod 2 ^ LENGTH(32)"
    by (rule unat_of_nat)
  also have "\<dots> = n + 40"
    using assms by simp
  finally show u: "unat (of_nat (n + 40) :: size_t) = n + 40" .
  show "\<not> (of_nat (n + 40) :: size_t) < 40"
    unfolding word_less_nat_alt u by simp
qed

lemma encrypt_hello_swapped:
  "encrypt_file xor_engine (Some hello) 5 (Some key_ones) (Some (replicate 45 0)) test_host
     = Some (45, Some hello_swapped, sealed_host xor_engine key_ones hello test_host)"
proof -
  have s: "encrypt_file xor_engine (Some hello) 5 (Some key_ones) (Some (replicate 45 0)) test_host
      = Some (ucast ((5 :: size_t) + 40),
              Some (fresh_nonce test_host
                      @ fst (aead_lock xor_engine key_ones (fresh_nonce test_host) [] hello)
                      @ drop 16 (take (length hello + 16)
                          (take (length hello) (drop 24 (replicate 45 0))
                             @ snd (aead_lock xor_engine key_ones (fresh_nonce test_host) [] hello)
                             @ drop (2 * length hello) (drop 24 (replicate 45 0))))),
              test_host\<lparr>drawn := drawn test_host + 24,
                 calls := calls test_host
                   @ [Random_values 24, Aead_lock key_ones (fresh_nonce test_host) [] hello]
                   @ (if 16 < length hello then [Overrun (length hello - 16)] else [])
                   @ [Wipe 24]\<rparr>)"
    by (rule encrypt_file_swapped[OF xor_engine_order xor_engine_sizes])
      (simp_all add: hello_def key_ones_def)
  have e: "fresh_nonce test_host
             @ fst (aead_lock xor_engine key_ones (fresh_nonce test_host) [] hello)
             @ drop 16 (take (length hello + 16)
                 (take (length hello) (drop 24 (replicate 45 0))
                    @ snd (aead_lock xor_engine key_ones (fresh_nonce test_host) [] hello)
                    @ drop (2 * length hello) (drop 24 (replicate 45 0))))
           = hello_swapped"
    unfolding xor_engine_fields by code_simp
  have h: "test_host\<lparr>drawn := drawn test_host + 24,
                 calls := calls test_host
                   @ [Random_values 24, Aead_lock key_ones (fresh_nonce test_host) [] hello]
                   @ (if 16 < length hello then [Overrun (length hello - 16)] else [])
                   @ [Wipe 24]\<rparr>
           = sealed_host xor_engine key_ones hello test_host"
    by (simp add: sealed_host_def hello_def)
  have r: "ucast ((5 :: size_t) + 40) = (45 :: cint)"
    by simp
  show ?thesis
    unfolding s e h r ..
qed

lemma hello_swapped_not_wire:
  "hello_swapped \<noteq> wire_envelope xor_engine key_ones (fresh_nonce test_host) hello"
  unfolding wire_envelope_def xor_engine_fields by code_simp

lemma decrypt_hello_swapped:
  "decrypt_file xor_engine (Some hello_swapped) 45 (Some key_ones) (Some (replicate 5 0)) h
     = Some (- 1, Some (replicate 5 0), opened_host key_ones hello_swapped h)"
proof -
  have r: "aead_unlock xor_engine (replicate 5 0) (env_mac hello_swapped) key_ones
             (env_nonce hello_swapped) [] (env_ciphertext hello_swapped) = (- 1, replicate 5 0)"
    unfolding xor_engine_fields by code_simp
  have l: "length hello_swapped = 45" "length key_ones = 32"
    by (simp_all add: hello_swapped_def key_ones_def)
  show ?thesis
    using decrypt_file_run[of 45 hello_swapped key_ones "replicate 5 0" xor_engine h] l
    by (simp add: r store_def)
qed


section \<open>The claims\<close>

subsection \<open>C1: round-trip\<close>

text \<open>
  C1 (round-trip) fails on the code when \<^verbatim>\<open>monocypher.h\<close> declares
  \<^verbatim>\<open>crypto_aead_lock(cipher_text, mac, ...)\<close>, as Monocypher 4 does: \<^verbatim>\<open>encrypt_file\<close> passes
  \<^verbatim>\<open>output + 24 + N\<close> first and \<^verbatim>\<open>output + 24\<close> second. Sealing the five bytes of "hello"
  under a key of 32 bytes \<open>0x01\<close> into a buffer of 45 zero bytes: the engine writes the
  five ciphertext bytes at offset 29 and then the 16-byte tag at offset 24, over them. The
  buffer holds the nonce, the tag and five untouched bytes; \<^verbatim>\<open>decrypt_file\<close> on these 45
  bytes, with the same key, hands the engine the first five bytes of the tag as ciphertext
  and returns \<open>-1\<close>.
\<close>

theorem round_trip_bug:
  "encrypt_file xor_engine (Some hello) 5 (Some key_ones) (Some (replicate 45 0)) test_host
     = Some (45, Some hello_swapped, sealed_host xor_engine key_ones hello test_host) \<and>
   hello_swapped \<noteq> wire_envelope xor_engine key_ones (fresh_nonce test_host) hello \<and>
   decrypt_file xor_engine (Some hello_swapped) 45 (Some key_ones) (Some (replicate 5 0))
       (sealed_host xor_engine key_ones hello test_host)
     = Some (- 1, Some (replicate 5 0),
         opened_host key_ones hello_swapped (sealed_host xor_engine key_ones hello test_host))"
  using encrypt_hello_swapped hello_swapped_not_wire decrypt_hello_swapped
  by (intro conjI)

text \<open>
  With the prototype order that the local names of the call assume, the round trip holds:
  for every engine of that order that meets the size and correctness contract, every
  32-byte key and every plaintext of at least one byte whose envelope fits the 32-bit
  address space, \<^verbatim>\<open>decrypt_file\<close> on what \<^verbatim>\<open>encrypt_file\<close> wrote returns the length of the
  plaintext and leaves the plaintext in the buffer.
\<close>

lemma round_trip_if_mac_first:
  assumes ord: "aead_lock_order eng = Mac_first"
    and eng: "aead_sizes eng" "aead_correct eng"
    and key: "length key = 32"
    and len: "plaintext_len \<noteq> 0" "length p = unat plaintext_len"
    and fits: "unat plaintext_len + 40 < 2 ^ 32"
    and out: "length out = unat plaintext_len + 40"
    and pt: "length pt = unat plaintext_len"
  shows "\<exists>r envelope h1 h2.
           encrypt_file eng (Some p) plaintext_len (Some key) (Some out) h
             = Some (r, Some envelope, h1) \<and>
           decrypt_file eng (Some envelope) (of_nat (length envelope)) (Some key) (Some pt) h1
             = Some (plaintext_len, Some p, h2) \<and>
           plaintext_len \<noteq> - 1"
proof -
  let ?n = "fresh_nonce h"
  let ?c = "snd (aead_lock eng key ?n [] p)"
  let ?m = "fst (aead_lock eng key ?n [] p)"
  let ?e = "?n @ ?c @ ?m"
  note n = length_fresh_nonce[of h]
  have lc: "length ?c = unat plaintext_len" and lm: "length ?m = 16"
    using aead_sizesD[OF eng(1) key n] len by simp_all
  have le: "length ?e = unat (plaintext_len + 40)"
    using envelope_len(1)[OF fits] by (simp add: n lc lm)
  then have el: "of_nat (length ?e) = plaintext_len + 40" by simp
  have seal: "encrypt_file eng (Some p) plaintext_len (Some key) (Some out) h =
           Some (ucast (plaintext_len + 40), Some ?e, sealed_host eng key p h)"
    by (rule encrypt_file_sealed[OF ord eng(1) len key out])
  have ptl: "length pt = unat (plaintext_len + 40) - 40"
    using pt envelope_len(1)[OF fits] by simp
  have ok: "aead_unlock eng pt ?m key ?n [] ?c = (0, p)"
    using aead_correctD[OF eng(2) key n, of pt p] pt len by simp
  have "decrypt_file eng (Some ?e) (plaintext_len + 40) (Some key) (Some pt)
          (sealed_host eng key p h)
        = Some (plaintext_len, Some p, opened_host key ?e (sealed_host eng key p h))"
    using decrypt_file_run[OF envelope_len(2)[OF fits] le key ptl, of eng "sealed_host eng key p h"]
    by (simp add: env_parts[OF n lm] ok store_whole pt len)
  with seal el envelope_len(3)[OF fits] show ?thesis by auto
qed

subsection \<open>C2: tamper detection\<close>

text \<open>
  C2 (tamper detection). The engine meets its contract: sizes, it rejects every
  ciphertext-and-tag pair one bit away from one it produced, and it writes nothing when it
  rejects. A valid envelope is the wire format's: a 24-byte nonce, the engine's ciphertext
  of a plaintext under a 32-byte key and that nonce, and its tag, of a length that fits
  the 32-bit address space. For every valid envelope, flipping any single bit \<open>i\<close> of the
  ciphertext region or of the tag region (\<open>192 \<le> i < 8 * len\<close>) makes \<^verbatim>\<open>decrypt_file\<close> with
  the same key return \<open>-1\<close> after the engine's verdict (the one call recorded), with the
  plaintext buffer left as it was.
\<close>

theorem tamper_detected:
  assumes eng: "aead_sizes eng" "aead_tamper_evident eng" "aead_reject_untouched eng"
    and key: "length key = 32"
    and nonce: "length nonce = 24"
    and fits: "length p + 40 < 2 ^ 32"
    and pt: "length pt = length p"
    and bit: "192 \<le> i" "i < 8 * (length p + 40)"
  shows "decrypt_file eng (Some (tamper i (wire_envelope eng key nonce p)))
           (of_nat (length (wire_envelope eng key nonce p))) (Some key) (Some pt) h
         = Some (- 1, Some pt, opened_host key (tamper i (wire_envelope eng key nonce p)) h)"
proof -
  let ?c = "snd (aead_lock eng key nonce [] p)"
  let ?m = "fst (aead_lock eng key nonce [] p)"
  let ?t = "tamper (i - 192) (?c @ ?m)"
  let ?len = "of_nat (length (wire_envelope eng key nonce p)) :: size_t"
  note w = wire_envelope_parts[OF eng(1) key nonce, of p]
  note s = size_t_of_length[OF fits]
  have lc: "length ?c = length p" and lm: "length ?m = 16"
    using aead_sizesD[OF eng(1) key nonce] by simp_all
  have te: "tamper i (wire_envelope eng key nonce p) = nonce @ ?t"
    using bit(1) by (simp add: wire_envelope_def tamper_append[of i nonce] nonce)
  have lt: "length ?t = length p + 16"
    by (simp add: length_tamper lc lm)
  have parts: "env_nonce (nonce @ ?t) = nonce" "env_ciphertext (nonce @ ?t) = take (length p) ?t"
    "env_mac (nonce @ ?t) = drop (length p) ?t"
    by (simp_all add: env_nonce_def env_ciphertext_def env_mac_def nonce lt)
  have i': "i - 192 < 8 * (length p + 16)"
    using bit by simp
  have rej: "fst (aead_unlock eng pt (env_mac (nonce @ ?t)) key (env_nonce (nonce @ ?t)) []
                 (env_ciphertext (nonce @ ?t))) \<noteq> 0"
    unfolding parts by (rule aead_tamper_evidentD[OF eng(2) key nonce pt i'])
  have le': "length (nonce @ ?t) = unat ?len"
    unfolding w(1) s(1) by (simp add: nonce lt)
  have ptl': "length pt = unat ?len - 40"
    unfolding w(1) s(1) using pt by simp
  have nlt: "\<not> ?len < 40"
    unfolding w(1) by (rule s(2))
  show ?thesis
    unfolding te
    by (rule decrypt_file_rejected[OF eng(3) nlt le' key ptl' rej])
qed

theorem tamper_detected_witness:
  "decrypt_file xor_engine
     (Some (tamper 200 (wire_envelope xor_engine key_ones (fresh_nonce test_host) hello)))
     (of_nat (length (wire_envelope xor_engine key_ones (fresh_nonce test_host) hello)))
     (Some key_ones) (Some (replicate 5 0)) test_host
     = Some (- 1, Some (replicate 5 0),
         opened_host key_ones
           (tamper 200 (wire_envelope xor_engine key_ones (fresh_nonce test_host) hello)) test_host) \<and>
   decrypt_file xor_engine
     (Some (tamper 300 (wire_envelope xor_engine key_ones (fresh_nonce test_host) hello)))
     (of_nat (length (wire_envelope xor_engine key_ones (fresh_nonce test_host) hello)))
     (Some key_ones) (Some (replicate 5 0)) test_host
     = Some (- 1, Some (replicate 5 0),
         opened_host key_ones
           (tamper 300 (wire_envelope xor_engine key_ones (fresh_nonce test_host) hello)) test_host)"
proof -
  note t = tamper_detected[OF xor_engine_sizes xor_engine_tamper_evident
      xor_engine_reject_untouched, of key_ones "fresh_nonce test_host" hello "replicate 5 0" _
      test_host]
  show ?thesis
    using t[of 200] t[of 300] by (simp add: key_ones_def hello_def length_fresh_nonce)
qed

subsection \<open>C3: wrong-key rejection\<close>




subsection \<open>C4: length law and wire layout\<close>

text \<open>
  C4 (length law and wire layout) fails on the code in two ways.
  \<^item> The layout, when \<^verbatim>\<open>monocypher.h\<close> declares \<^verbatim>\<open>crypto_aead_lock(cipher_text, mac, ...)\<close>, as
    Monocypher 4 does (the defect of C1). Sealing "hello" under a key of 32 bytes \<open>0x01\<close>
    into 45 zero bytes returns 45, but the buffer holds the nonce, then the 16-byte tag,
    then five untouched bytes: not nonce, ciphertext, tag. Sealing 17 bytes into the 57
    bytes that the documentation asks for, the engine is pointed at offset 41 for its 17
    ciphertext bytes: one byte is written past the end of the buffer.
  \<^item> The reported length (the cast of C10). Sealing \<open>2^31 - 40\<close> bytes returns \<open>-2^31\<close>, and
    the envelope has \<open>2^31\<close> bytes.
\<close>

theorem seal_layout_bug:
  "encrypt_file xor_engine (Some hello) 5 (Some key_ones) (Some (replicate 45 0)) test_host
     = Some (45, Some hello_swapped, sealed_host xor_engine key_ones hello test_host) \<and>
   hello_swapped
     = fresh_nonce test_host
       @ fst (aead_lock xor_engine key_ones (fresh_nonce test_host) [] hello) @ replicate 5 0 \<and>
   hello_swapped \<noteq> wire_envelope xor_engine key_ones (fresh_nonce test_host) hello \<and>
   (\<exists>r env h'.
      encrypt_file xor_engine (Some (replicate 17 0)) 17 (Some key_ones) (Some (replicate 57 0))
        test_host = Some (r, Some env, h') \<and>
      calls h'
        = [Random_values 24,
           Aead_lock key_ones (fresh_nonce test_host) [] (replicate 17 0), Overrun 1, Wipe 24]) \<and>
   (\<exists>r env h'.
      encrypt_file xor_engine (Some (replicate 2147483608 0)) 2147483608 (Some (replicate 32 0))
        (Some (replicate 2147483648 0)) test_host = Some (r, Some env, h') \<and>
      sint r = - 2147483648 \<and> length env = 2147483648)"
proof (intro conjI)
  show "encrypt_file xor_engine (Some hello) 5 (Some key_ones) (Some (replicate 45 0)) test_host
     = Some (45, Some hello_swapped, sealed_host xor_engine key_ones hello test_host)"
    by (rule encrypt_hello_swapped)
  show "hello_swapped
     = fresh_nonce test_host
       @ fst (aead_lock xor_engine key_ones (fresh_nonce test_host) [] hello) @ replicate 5 0"
    unfolding xor_engine_fields by code_simp
  show "hello_swapped \<noteq> wire_envelope xor_engine key_ones (fresh_nonce test_host) hello"
    by (rule hello_swapped_not_wire)
  show "\<exists>r env h'.
      encrypt_file xor_engine (Some (replicate 17 0)) 17 (Some key_ones) (Some (replicate 57 0))
        test_host = Some (r, Some env, h') \<and>
      calls h'
        = [Random_values 24,
           Aead_lock key_ones (fresh_nonce test_host) [] (replicate 17 0), Overrun 1, Wipe 24]"
    using encrypt_file_swapped[OF xor_engine_order xor_engine_sizes, of 17 "replicate 17 0"
        key_ones "replicate 57 0" test_host]
    by (simp add: key_ones_def test_host_def del: take_append drop_append)
  show "\<exists>r env h'.
      encrypt_file xor_engine (Some (replicate 2147483608 0)) 2147483608 (Some (replicate 32 0))
        (Some (replicate 2147483648 0)) test_host = Some (r, Some env, h') \<and>
      sint r = - 2147483648 \<and> length env = 2147483648"
  proof -
    have s: "sint (ucast ((2147483608 :: size_t) + 40) :: cint) = - 2147483648"
      using sint_cint[of "2147483608 + 40"] by simp
    obtain env h' where
      "encrypt_file xor_engine (Some (replicate 2147483608 0)) 2147483608 (Some (replicate 32 0))
         (Some (replicate 2147483648 0)) test_host
       = Some (ucast ((2147483608 :: size_t) + 40), Some env, h')"
      and "length env = length (replicate 2147483648 (0 :: byte))"
      using encrypt_file_returns[of 2147483608 "replicate 2147483608 0" "replicate 32 0"
          "replicate 2147483648 0" xor_engine test_host]
      by auto
    with s show ?thesis
      by (intro exI[of _ "ucast ((2147483608 :: size_t) + 40)"] exI[of _ env] exI[of _ h']) simp
  qed
qed

text \<open>
  With the prototype order that the local names of the call assume, and an envelope length
  of at most \<^verbatim>\<open>INT_MAX\<close>, both hold: \<^verbatim>\<open>encrypt_file\<close> returns \<open>len(p) + 40\<close> and the output
  buffer is the 24 bytes drawn, the engine's ciphertext of \<open>p\<close> and its 16-byte tag.
\<close>

lemma seal_length_and_layout_if_mac_first:
  assumes ord: "aead_lock_order eng = Mac_first"
    and eng: "aead_sizes eng"
    and key: "length key = 32"
    and len: "plaintext_len \<noteq> 0" "length p = unat plaintext_len"
    and out: "length out = unat plaintext_len + 40"
    and fits: "unat plaintext_len + 40 \<le> 2147483647"
  shows "\<exists>r nonce c mac h'.
           encrypt_file eng (Some p) plaintext_len (Some key) (Some out) h
             = Some (r, Some (nonce @ c @ mac), h') \<and>
           sint r = int (length p) + 40 \<and>
           nonce = fst (getRandomValues 24 h) \<and> length nonce = 24 \<and>
           (mac, c) = aead_lock eng key nonce [] p \<and>
           length c = length p \<and> length mac = 16"
proof -
  note n = length_fresh_nonce[of h]
  have d: "fst (getRandomValues 24 h) = fresh_nonce h"
    by (simp add: getRandomValues_def fresh_nonce_def)
  have "sint (ucast (plaintext_len + 40) :: cint) = int (length p) + 40"
    using seal_return_value(3)[OF fits] len(2) by simp
  then show ?thesis
    unfolding d
    using encrypt_file_sealed[OF ord eng len key out, of h]
      aead_sizesD(1,2)[OF eng key n, of "[]" p] n
    by (intro exI conjI) (assumption | simp)+
qed

subsection \<open>C5: postcondition of a successful opening\<close>

text \<open>
  C5 (postcondition of a successful opening). With an engine that meets its size contract
  and buffers of the documented sizes: whenever \<^verbatim>\<open>decrypt_file\<close> on an envelope \<open>e\<close> returns
  something else than \<open>-1\<close>, the envelope has at least 40 bytes, the plaintext buffer holds
  exactly \<open>len(e) - 40\<close> bytes, namely the plaintext the engine accepted, the returned value
  is \<open>len(e) - 40\<close> (read as unsigned, and read as \<^verbatim>\<open>int\<close> whenever it is not negative), and, for
  an engine that meets its correctness contract, the plaintext is \<open>p\<close> whenever \<open>e\<close> is the
  nonce, ciphertext and tag of a sealing of \<open>p\<close> under the same key.
\<close>

theorem opener_success_postcondition:
  assumes eng: "aead_sizes eng"
    and buf: "length e = unat encrypted_len" "length key = 32" "length pt = length e - 40"
    and run: "decrypt_file eng (Some e) encrypted_len (Some key) (Some pt) h = Some (r, Some pt', h')"
    and success: "r \<noteq> - 1"
  shows "40 \<le> length e \<and> length pt' = length e - 40 \<and> unat r = length e - 40 \<and>
         (0 \<le> sint r \<longrightarrow> sint r = int (length e) - 40) \<and>
         aead_unlock eng pt (env_mac e) key (env_nonce e) [] (env_ciphertext e) = (0, pt') \<and>
         (aead_correct eng \<longrightarrow>
            (\<forall>p. length p = length e - 40 \<and>
                 aead_lock eng key (env_nonce e) [] p = (env_mac e, env_ciphertext e)
                 \<longrightarrow> pt' = p))"
proof -
  let ?u = "aead_unlock eng pt (env_mac e) key (env_nonce e) [] (env_ciphertext e)"
  have nlt: "\<not> encrypted_len < 40"
  proof
    assume "encrypted_len < 40"
    then have "decrypt_file eng (Some e) encrypted_len (Some key) (Some pt) h = Some (- 1, Some pt, h)"
      by (simp add: decrypt_file_def)
    with run success show False by simp
  qed
  then have ge: "40 \<le> length e" using buf(1) by (simp add: word_less_nat_alt)
  have ln: "length (env_nonce e) = 24" using ge by (simp add: env_nonce_def)
  have lc: "length (env_ciphertext e) = length e - 40" using ge by (simp add: env_ciphertext_def)
  have lp: "length (snd ?u) = length e - 40"
    using aead_sizesD(3)[OF eng buf(2) ln, of pt "env_ciphertext e"] buf(3) lc by simp
  have "decrypt_file eng (Some e) encrypted_len (Some key) (Some pt) h =
           Some (if fst ?u = 0 then encrypted_len - 40 else - 1, Some (snd ?u), opened_host key e h)"
    using decrypt_file_run[OF nlt buf(1,2), of pt eng h] buf lp by (simp add: store_whole)
  with run have r: "r = (if fst ?u = 0 then encrypted_len - 40 else - 1)" and p: "pt' = snd ?u"
    by simp_all
  from r success have acc: "fst ?u = 0" and r': "r = encrypted_len - 40"
    by (simp_all split: if_splits)
  have ur: "unat r = length e - 40"
    unfolding r' using unat_len_minus_40[OF nlt] buf(1) by simp
  have sr: "0 \<le> sint r \<longrightarrow> sint r = int (length e) - 40"
  proof
    assume "0 \<le> sint r"
    then have "sint r = int (unat r)"
      using sint_cint[of r] unat_cint_lt[of r] by (simp split: if_splits)
    then show "sint r = int (length e) - 40" using ur ge by simp
  qed
  have u: "?u = (0, pt')" using acc p by (simp add: prod_eq_iff)
  have rt: "aead_correct eng \<longrightarrow>
            (\<forall>p. length p = length e - 40 \<and>
                 aead_lock eng key (env_nonce e) [] p = (env_mac e, env_ciphertext e)
                 \<longrightarrow> pt' = p)"
  proof (intro impI allI)
    fix p
    assume c: "aead_correct eng"
      and s: "length p = length e - 40 \<and>
                 aead_lock eng key (env_nonce e) [] p = (env_mac e, env_ciphertext e)"
    have "?u = (0, p)"
      using aead_correctD[OF c buf(2) ln, of pt p "[]"] s buf(3) by simp
    with u show "pt' = p" by simp
  qed
  have lpt: "length pt' = length e - 40" using lp p by simp
  from ge lpt ur sr u rt show ?thesis by (intro conjI)
qed

theorem opener_success_postcondition_witness:
  "45 = length (replicate 24 7 @ snd (xor_lock (replicate 32 1) (replicate 24 7) [] [104, 101, 108, 108, 111])
                 @ fst (xor_lock (replicate 32 1) (replicate 24 7) [] [104, 101, 108, 108, 111])) \<and>
   decrypt_file xor_engine
     (Some (replicate 24 7 @ snd (xor_lock (replicate 32 1) (replicate 24 7) [] [104, 101, 108, 108, 111])
                 @ fst (xor_lock (replicate 32 1) (replicate 24 7) [] [104, 101, 108, 108, 111])))
     45 (Some (replicate 32 1)) (Some (replicate 5 0)) test_host
     = Some (5, Some [104, 101, 108, 108, 111],
         opened_host (replicate 32 1)
           (replicate 24 7 @ snd (xor_lock (replicate 32 1) (replicate 24 7) [] [104, 101, 108, 108, 111])
                 @ fst (xor_lock (replicate 32 1) (replicate 24 7) [] [104, 101, 108, 108, 111]))
           test_host) \<and>
   length [104, 101, 108, 108, 111 :: byte] = 45 - 40 \<and> unat (5 :: cint) = 45 - 40 \<and>
   sint (5 :: cint) = 45 - 40"
proof -
  let ?k = "replicate 32 (1::byte)"
  let ?n = "replicate 24 (7::byte)"
  let ?p = "[104, 101, 108, 108, 111 :: byte]"
  let ?e = "?n @ snd (xor_lock ?k ?n [] ?p) @ fst (xor_lock ?k ?n [] ?p)"
  have le: "length ?e = 45"
    by (simp add: xor_lock_def length_xor_mac)
  have acc: "aead_unlock xor_engine (replicate 5 0) (env_mac ?e) ?k (env_nonce ?e) [] (env_ciphertext ?e)
               = (0, ?p)"
    by (rule xor_envelope_accepted[where nonce = ?n]) simp_all
  have run: "decrypt_file xor_engine (Some ?e) 45 (Some ?k) (Some (replicate 5 0)) test_host
               = Some (5, Some ?p, opened_host ?k ?e test_host)"
    using decrypt_file_run[of 45 ?e ?k "replicate 5 0" xor_engine test_host] le
    by (simp add: acc store_whole)
  have "(5 :: cint) \<noteq> - 1" by simp
  from opener_success_postcondition[OF xor_engine_sizes _ _ _ run this] le run
  show ?thesis by simp
qed

subsection \<open>C6: boundary rejection\<close>

text \<open>
  C6 (boundary rejection). For every key (and whatever the buffers), \<^verbatim>\<open>decrypt_file\<close> with
  \<^verbatim>\<open>encrypted_len < 40\<close> returns \<open>-1\<close> and leaves the plaintext buffer and the host as they
  were: no call of the engine is recorded. \<^verbatim>\<open>encrypt_file\<close> with \<^verbatim>\<open>plaintext_len = 0\<close>
  returns \<open>-1\<close> and leaves the output buffer and the host as they were: no draw from the
  random source and no call of the engine is recorded.
\<close>

theorem boundary_rejection:
  "(encrypted_len < 40 \<longrightarrow>
      decrypt_file eng encrypted encrypted_len key plaintext h = Some (- 1, plaintext, h)) \<and>
   encrypt_file eng plaintext' 0 key' output h = Some (- 1, output, h)"
  by (simp add: decrypt_file_def encrypt_file_def)

theorem boundary_rejection_witness:
  "decrypt_file xor_engine (Some (replicate 39 0)) 39 (Some (replicate 32 1)) (Some []) test_host
     = Some (- 1, Some [], test_host) \<and>
   encrypt_file xor_engine (Some []) 0 (Some (replicate 32 1)) (Some (replicate 40 0)) test_host
     = Some (- 1, Some (replicate 40 0), test_host)"
  using boundary_rejection[of 39 xor_engine "Some (replicate 39 0)" "Some (replicate 32 1)"
      "Some []" test_host "Some []" "Some (replicate 32 1)" "Some (replicate 40 0)"]
  by simp

subsection \<open>C7: error kinds\<close>

text \<open>
  C7 (distinguishable error kinds), as stated, fails: an envelope of 39 bytes (rejected at
  validation, no call of the engine) and an envelope of 41 bytes whose tag the engine
  rejects give the same result, \<open>-1\<close> and an untouched plaintext buffer.
\<close>

theorem error_kinds_counterexample:
  "decrypt_file xor_engine (Some (replicate 39 0)) 39 (Some (replicate 32 0)) (Some [0]) test_host
     = Some (- 1, Some [0], test_host) \<and>
   decrypt_file xor_engine (Some (replicate 40 0 @ [1])) 41 (Some (replicate 32 0)) (Some [0]) test_host
     = Some (- 1, Some [0], opened_host (replicate 32 0) (replicate 40 0 @ [1]) test_host) \<and>
   calls test_host = [] \<and>
   calls (opened_host (replicate 32 0) (replicate 40 0 @ [1]) test_host)
     = [Aead_unlock (replicate 15 0 @ [1]) (replicate 32 0) (replicate 24 0) [] [0]]"
proof -
  have 1: "decrypt_file xor_engine (Some (replicate 39 0)) 39 (Some (replicate 32 0)) (Some [0]) test_host
     = Some (- 1, Some [0], test_host)"
    by (simp add: decrypt_file_def)
  have 2: "calls test_host = []" by (simp add: test_host_def)
  have 3: "env_mac (replicate 40 0 @ [1]) = replicate 15 0 @ [1]"
    "env_nonce (replicate 40 0 @ [1]) = replicate 24 0"
    "env_ciphertext (replicate 40 0 @ [1]) = [0]"
    by code_simp+
  show ?thesis
    using 1 2 decrypt_rejects_example by (simp add: opened_host_def 3)
qed

text \<open>
  C7, amended. The failures surfaced to callers are not typed: every failure is the return
  value \<open>-1\<close>. On seal, a null plaintext, key or output pointer and an empty plaintext
  return \<open>-1\<close>; on open, a null pointer, an envelope shorter than 40 bytes and a tag that
  the engine rejects all return \<open>-1\<close>.
\<close>

theorem uniform_error_value:
  "(plaintext = None \<or> key = None \<or> output = None \<or> plaintext_len = 0 \<longrightarrow>
      map_option fst (encrypt_file eng plaintext plaintext_len key output h) = Some (- 1)) \<and>
   (encrypted = None \<or> key = None \<or> buffer = None \<or> encrypted_len < 40 \<longrightarrow>
      map_option fst (decrypt_file eng encrypted encrypted_len key buffer h) = Some (- 1)) \<and>
   (length e = unat encrypted_len \<and> length k = 32 \<and> length pt = length e - 40 \<and>
    \<not> encrypted_len < 40 \<and>
    fst (aead_unlock eng pt (env_mac e) k (env_nonce e) [] (env_ciphertext e)) \<noteq> 0 \<longrightarrow>
      map_option fst (decrypt_file eng (Some e) encrypted_len (Some k) (Some pt) h) = Some (- 1))"
proof (intro conjI impI)
  assume "plaintext = None \<or> key = None \<or> output = None \<or> plaintext_len = 0"
  then show "map_option fst (encrypt_file eng plaintext plaintext_len key output h) = Some (- 1)"
    by (simp add: encrypt_file_def)
next
  assume "encrypted = None \<or> key = None \<or> buffer = None \<or> encrypted_len < 40"
  then show "map_option fst (decrypt_file eng encrypted encrypted_len key buffer h) = Some (- 1)"
    by (simp add: decrypt_file_def)
next
  assume "length e = unat encrypted_len \<and> length k = 32 \<and> length pt = length e - 40 \<and>
    \<not> encrypted_len < 40 \<and>
    fst (aead_unlock eng pt (env_mac e) k (env_nonce e) [] (env_ciphertext e)) \<noteq> 0"
  then show "map_option fst (decrypt_file eng (Some e) encrypted_len (Some k) (Some pt) h) = Some (- 1)"
    using decrypt_file_run[of encrypted_len e k pt eng h] by simp
qed

theorem uniform_error_value_witness:
  "map_option fst (encrypt_file xor_engine (Some []) 0 (Some (replicate 32 0)) (Some (replicate 40 0))
      test_host) = Some (- 1) \<and>
   map_option fst (decrypt_file xor_engine (Some (replicate 39 0)) 39 (Some (replicate 32 0)) (Some [0])
      test_host) = Some (- 1) \<and>
   map_option fst (decrypt_file xor_engine (Some (replicate 40 0 @ [1])) 41 (Some (replicate 32 0))
      (Some [0]) test_host) = Some (- 1)"
proof -
  note a = uniform_error_value[of "Some []" "Some (replicate 32 0)" "Some (replicate 40 0)" 0
      xor_engine test_host "Some (replicate 39 0)" "Some [0]" 39]
  note b = uniform_error_value[of _ _ _ _ xor_engine test_host _ _ 41 "replicate 40 0 @ [1]"
      "replicate 32 0" "[0]"]
  have 1: "map_option fst (encrypt_file xor_engine (Some []) 0 (Some (replicate 32 0))
      (Some (replicate 40 0)) test_host) = Some (- 1)"
    using a[THEN conjunct1] by simp
  have 2: "map_option fst (decrypt_file xor_engine (Some (replicate 39 0)) 39 (Some (replicate 32 0))
      (Some [0]) test_host) = Some (- 1)"
    using a[THEN conjunct2, THEN conjunct1] by simp
  have 3: "map_option fst (decrypt_file xor_engine (Some (replicate 40 0 @ [1])) 41
      (Some (replicate 32 0)) (Some [0]) test_host) = Some (- 1)"
    using b[THEN conjunct2, THEN conjunct2] by (simp add: xor_rejects_example)
  from 1 2 3 show ?thesis by (intro conjI)
qed

subsection \<open>C8: no partial results on error\<close>

text \<open>
  C8 (no partial results on error).
  \<^item> A sealing that fails validation (a null pointer or an empty plaintext) returns \<open>-1\<close>
    and leaves the output buffer and the host as they were. Whenever \<^verbatim>\<open>encrypt_file\<close>
    returns \<open>-1\<close>, the output buffer and the host are as they were, except for a plaintext
    of \<open>2^32 - 41\<close> bytes, where the call has run to its end and the buffer holds what the
    engine wrote: with the prototype order that the local names of the call assume, the
    complete envelope (nonce, ciphertext, tag), never a part of one.
  \<^item> An opening that fails validation (a null pointer or fewer than 40 bytes) returns \<open>-1\<close>
    and leaves the plaintext buffer and the host as they were. With buffers of the
    documented sizes and an engine that writes nothing when it rejects, whenever
    \<^verbatim>\<open>decrypt_file\<close> returns \<open>-1\<close> the plaintext buffer is as it was; and whenever the engine
    rejects, \<^verbatim>\<open>decrypt_file\<close> returns \<open>-1\<close>, not a length.
\<close>

theorem no_partial_results:
  "(plaintext = None \<or> key = None \<or> obuf = None \<or> plaintext_len = 0 \<longrightarrow>
      encrypt_file eng plaintext plaintext_len key obuf h = Some (- 1, obuf, h)) \<and>
   (encrypt_file eng plaintext plaintext_len key obuf h = Some (- 1, obuf', h') \<and>
    plaintext_len \<noteq> 4294967255 \<longrightarrow> obuf' = obuf \<and> h' = h) \<and>
   (length k = 32 \<and> length p = 4294967255 \<and> length out = length p + 40 \<longrightarrow>
      (\<exists>env h1. encrypt_file eng (Some p) 4294967255 (Some k) (Some out) h
                   = Some (- 1, Some env, h1) \<and> length env = length out)) \<and>
   (aead_lock_order eng = Mac_first \<and>
    aead_sizes eng \<and> length k = 32 \<and> length p = 4294967255 \<and> length out = length p + 40 \<longrightarrow>
      encrypt_file eng (Some p) 4294967255 (Some k) (Some out) h
        = Some (- 1, Some (fresh_nonce h @ snd (aead_lock eng k (fresh_nonce h) [] p)
                            @ fst (aead_lock eng k (fresh_nonce h) [] p)),
                sealed_host eng k p h)) \<and>
   (encrypted = None \<or> key = None \<or> buffer = None \<or> encrypted_len < 40 \<longrightarrow>
      decrypt_file eng encrypted encrypted_len key buffer h = Some (- 1, buffer, h)) \<and>
   (aead_reject_untouched eng \<and> length e = unat encrypted_len \<and> length k = 32 \<and>
    length pt = length e - 40 \<and>
    decrypt_file eng (Some e) encrypted_len (Some k) (Some pt) h = Some (- 1, buffer', h'')
      \<longrightarrow> buffer' = Some pt) \<and>
   (length e = unat encrypted_len \<and> length k = 32 \<and> length pt = length e - 40 \<and>
    \<not> encrypted_len < 40 \<and>
    fst (aead_unlock eng pt (env_mac e) k (env_nonce e) [] (env_ciphertext e)) \<noteq> 0
      \<longrightarrow> (\<exists>b1 h1. decrypt_file eng (Some e) encrypted_len (Some k) (Some pt) h
                           = Some (- 1, b1, h1)))"
proof (intro conjI impI)
  assume "plaintext = None \<or> key = None \<or> obuf = None \<or> plaintext_len = 0"
  then show "encrypt_file eng plaintext plaintext_len key obuf h = Some (- 1, obuf, h)"
    by (simp add: encrypt_file_def)
next
  assume a: "encrypt_file eng plaintext plaintext_len key obuf h = Some (- 1, obuf', h') \<and>
    plaintext_len \<noteq> 4294967255"
  then have ne: "plaintext_len + 40 \<noteq> - 1" by (simp add: plus_40_eq_minus_1)
  show "obuf' = obuf" "h' = h"
    using a ne by (auto simp: encrypt_file_def split_def Let_def split: if_splits)
next
  assume a: "length k = 32 \<and> length p = 4294967255 \<and> length out = length p + 40"
  have m: "ucast ((4294967255 :: size_t) + 40) = (- 1 :: cint)"
    by simp
  have l: "(4294967255 :: size_t) \<noteq> 0" "length p = unat (4294967255 :: size_t)"
    "length k = 32" "length out = unat (4294967255 :: size_t) + 40"
    using a by simp_all
  show "\<exists>env h1. encrypt_file eng (Some p) 4294967255 (Some k) (Some out) h
                   = Some (- 1, Some env, h1) \<and> length env = length out"
    using encrypt_file_returns[OF l, of eng h] unfolding m .
next
  assume a: "aead_lock_order eng = Mac_first \<and>
    aead_sizes eng \<and> length k = 32 \<and> length p = 4294967255 \<and> length out = length p + 40"
  show "encrypt_file eng (Some p) 4294967255 (Some k) (Some out) h
        = Some (- 1, Some (fresh_nonce h @ snd (aead_lock eng k (fresh_nonce h) [] p)
                            @ fst (aead_lock eng k (fresh_nonce h) [] p)),
                sealed_host eng k p h)"
    using encrypt_file_sealed[of eng 4294967255 p k out h] a by simp
next
  assume "encrypted = None \<or> key = None \<or> buffer = None \<or> encrypted_len < 40"
  then show "decrypt_file eng encrypted encrypted_len key buffer h = Some (- 1, buffer, h)"
    by (simp add: decrypt_file_def)
next
  assume a: "aead_reject_untouched eng \<and> length e = unat encrypted_len \<and> length k = 32 \<and>
    length pt = length e - 40 \<and>
    decrypt_file eng (Some e) encrypted_len (Some k) (Some pt) h = Some (- 1, buffer', h'')"
  show "buffer' = Some pt"
  proof (cases "encrypted_len < 40")
    case True
    then have "decrypt_file eng (Some e) encrypted_len (Some k) (Some pt) h = Some (- 1, Some pt, h)"
      by (simp add: decrypt_file_def)
    with a show ?thesis by simp
  next
    case False
    let ?u = "aead_unlock eng pt (env_mac e) k (env_nonce e) [] (env_ciphertext e)"
    have run: "decrypt_file eng (Some e) encrypted_len (Some k) (Some pt) h =
           Some (if fst ?u = 0 then encrypted_len - 40 else - 1, Some (store pt 0 (snd ?u)),
                 opened_host k e h)"
      using decrypt_file_run[OF False, of e k pt eng h] a by simp
    have "fst ?u \<noteq> 0"
    proof
      assume "fst ?u = 0"
      with run a have "encrypted_len - 40 = - 1" by simp
      with open_return_value(3)[OF False] show False by simp
    qed
    then have "decrypt_file eng (Some e) encrypted_len (Some k) (Some pt) h =
           Some (- 1, Some pt, opened_host k e h)"
      using decrypt_file_rejected[OF _ False, of eng e k pt h] a by simp
    with a show ?thesis by simp
  qed
next
  assume a: "length e = unat encrypted_len \<and> length k = 32 \<and> length pt = length e - 40 \<and>
    \<not> encrypted_len < 40 \<and>
    fst (aead_unlock eng pt (env_mac e) k (env_nonce e) [] (env_ciphertext e)) \<noteq> 0"
  then show "\<exists>b1 h1. decrypt_file eng (Some e) encrypted_len (Some k) (Some pt) h
                           = Some (- 1, b1, h1)"
    using decrypt_file_run[of encrypted_len e k pt eng h] by simp
qed

theorem no_partial_results_witness:
  "encrypt_file xor_engine (Some []) 0 (Some (replicate 32 0)) (Some (replicate 40 0)) test_host
     = Some (- 1, Some (replicate 40 0), test_host) \<and>
   (\<exists>env h1. encrypt_file xor_engine (Some (replicate 4294967255 0)) 4294967255
                 (Some (replicate 32 0)) (Some (replicate 4294967295 0)) test_host
               = Some (- 1, Some env, h1) \<and> length env = 4294967295) \<and>
   encrypt_file xor_engine_mac_first (Some (replicate 4294967255 0)) 4294967255
       (Some (replicate 32 0)) (Some (replicate 4294967295 0)) test_host
     = Some (- 1,
         Some (fresh_nonce test_host
               @ snd (aead_lock xor_engine_mac_first (replicate 32 0) (fresh_nonce test_host) []
                        (replicate 4294967255 0))
               @ fst (aead_lock xor_engine_mac_first (replicate 32 0) (fresh_nonce test_host) []
                        (replicate 4294967255 0))),
         sealed_host xor_engine_mac_first (replicate 32 0) (replicate 4294967255 0) test_host) \<and>
   decrypt_file xor_engine (Some (replicate 39 0)) 39 (Some (replicate 32 0)) (Some [0]) test_host
     = Some (- 1, Some [0], test_host) \<and>
   (\<exists>h1. decrypt_file xor_engine (Some (replicate 40 0 @ [1])) 41 (Some (replicate 32 0)) (Some [0])
           test_host = Some (- 1, Some [0], h1))"
proof -
  note t = no_partial_results[where eng = xor_engine and h = test_host
      and plaintext = "Some []" and plaintext_len = 0 and key = "Some (replicate 32 0)"
      and obuf = "Some (replicate 40 0)" and obuf' = "Some (replicate 40 0)" and h' = test_host
      and k = "replicate 32 0" and p = "replicate 4294967255 0" and out = "replicate 4294967295 0"
      and encrypted = "Some (replicate 39 0)" and encrypted_len = 41 and buffer = None
      and e = "replicate 40 0 @ [1]" and pt = "[0]" and buffer' = "Some [0]"
      and h'' = "opened_host (replicate 32 0) (replicate 40 0 @ [1]) test_host"]
  note u = no_partial_results[where eng = xor_engine and h = test_host
      and encrypted = "Some (replicate 39 0)" and encrypted_len = 39
      and key = "Some (replicate 32 0)" and buffer = "Some [0]"]
  note v = no_partial_results[where eng = xor_engine_mac_first and h = test_host
      and k = "replicate 32 0" and p = "replicate 4294967255 0" and out = "replicate 4294967295 0"]
  have 1: "encrypt_file xor_engine (Some []) 0 (Some (replicate 32 0)) (Some (replicate 40 0)) test_host
     = Some (- 1, Some (replicate 40 0), test_host)"
    using t[THEN conjunct1] by simp
  have "Some (replicate 40 (0::byte)) = Some (replicate 40 0) \<and> test_host = test_host"
    using t[THEN conjunct2, THEN conjunct1] 1 by simp
  have 2: "\<exists>env h1. encrypt_file xor_engine (Some (replicate 4294967255 0)) 4294967255
                 (Some (replicate 32 0)) (Some (replicate 4294967295 0)) test_host
               = Some (- 1, Some env, h1) \<and> length env = 4294967295"
    using t[THEN conjunct2, THEN conjunct2, THEN conjunct1] by simp
  have 3: "encrypt_file xor_engine_mac_first (Some (replicate 4294967255 0)) 4294967255
       (Some (replicate 32 0)) (Some (replicate 4294967295 0)) test_host
     = Some (- 1,
         Some (fresh_nonce test_host
               @ snd (aead_lock xor_engine_mac_first (replicate 32 0) (fresh_nonce test_host) []
                        (replicate 4294967255 0))
               @ fst (aead_lock xor_engine_mac_first (replicate 32 0) (fresh_nonce test_host) []
                        (replicate 4294967255 0))),
         sealed_host xor_engine_mac_first (replicate 32 0) (replicate 4294967255 0) test_host)"
    using v[THEN conjunct2, THEN conjunct2, THEN conjunct2, THEN conjunct1]
      xor_engine_mac_first_sizes xor_engine_mac_first_order by simp
  have 4: "decrypt_file xor_engine (Some (replicate 39 0)) 39 (Some (replicate 32 0)) (Some [0]) test_host
     = Some (- 1, Some [0], test_host)"
    using u[THEN conjunct2, THEN conjunct2, THEN conjunct2, THEN conjunct2, THEN conjunct1] by simp
  have "\<exists>b1 h1. decrypt_file xor_engine (Some (replicate 40 0 @ [1])) 41 (Some (replicate 32 0))
           (Some [0]) test_host = Some (- 1, b1, h1)"
    using t[THEN conjunct2, THEN conjunct2, THEN conjunct2, THEN conjunct2, THEN conjunct2,
        THEN conjunct2]
    by (simp add: xor_rejects_example)
  then obtain b1 h1 where d: "decrypt_file xor_engine (Some (replicate 40 0 @ [1])) 41
       (Some (replicate 32 0)) (Some [0]) test_host = Some (- 1, b1, h1)"
    by blast
  have "b1 = Some [0]"
    using no_partial_results[where eng = xor_engine and h = test_host and encrypted_len = 41
        and k = "replicate 32 0" and e = "replicate 40 0 @ [1]" and pt = "[0]" and buffer' = b1
        and h'' = h1, THEN conjunct2, THEN conjunct2, THEN conjunct2, THEN conjunct2,
        THEN conjunct2, THEN conjunct1]
      d xor_engine_reject_untouched by simp
  with d have 5: "\<exists>h1. decrypt_file xor_engine (Some (replicate 40 0 @ [1])) 41 (Some (replicate 32 0))
       (Some [0]) test_host = Some (- 1, Some [0], h1)"
    by blast
  from 1 2 3 4 5 show ?thesis by (intro conjI)
qed

subsection \<open>C9: constant-time tag verification\<close>

text \<open>
  C9 is about the running time of the tag comparison inside \<^verbatim>\<open>crypto_aead_unlock\<close>. The
  model describes what the two functions return and write, not how long they run, and the
  engine is a parameter of it: nothing is stated about C9 here. That \<^verbatim>\<open>decrypt_file\<close>
  returns a length only when the engine accepts is part of C5 and C8.
\<close>

subsection \<open>C10: the int cast of the return value\<close>

text \<open>
  C10 (the \<^verbatim>\<open>int\<close> cast of the return value). With an engine that meets its size contract
  and buffers of the documented sizes:
  \<^item> a sealing returns the envelope length exactly when that length is at most \<^verbatim>\<open>INT_MAX\<close>;
    beyond it (and below \<open>2^32\<close>) the returned \<^verbatim>\<open>int\<close> is negative, and for a plaintext of
    \<open>2^32 - 41\<close> bytes it is \<open>-1\<close>, the error value, although the envelope was written;
  \<^item> an opening that the engine accepts returns the plaintext length exactly when the
    envelope has at most \<^verbatim>\<open>INT_MAX + 40\<close> bytes; beyond it the returned \<^verbatim>\<open>int\<close> is negative
    (with a 32-bit \<^verbatim>\<open>size_t\<close> it is never \<open>-1\<close>).
\<close>

theorem int_cast_overflow:
  assumes eng: "aead_sizes eng" and key: "length key = 32"
  shows
    "(plaintext_len \<noteq> 0 \<and> length p = unat plaintext_len \<and> length out = length p + 40 \<longrightarrow>
        (\<exists>r env h'.
           encrypt_file eng (Some p) plaintext_len (Some key) (Some out) h = Some (r, Some env, h') \<and>
           length env = length p + 40 \<and>
           (sint r = int (length env) \<longleftrightarrow> length env \<le> 2147483647) \<and>
           (2147483647 < length env \<and> length env < 4294967296 \<longrightarrow> sint r < 0) \<and>
           (length p = 4294967255 \<longrightarrow> r = - 1))) \<and>
     (\<not> encrypted_len < 40 \<and> length e = unat encrypted_len \<and> length pt = length e - 40 \<and>
      fst (aead_unlock eng pt (env_mac e) key (env_nonce e) [] (env_ciphertext e)) = 0 \<longrightarrow>
        (\<exists>r pt' h'.
           decrypt_file eng (Some e) encrypted_len (Some key) (Some pt) h = Some (r, Some pt', h') \<and>
           length pt' = length e - 40 \<and>
           (sint r = int (length pt') \<longleftrightarrow> length e \<le> 2147483647 + 40) \<and>
           (2147483647 + 40 < length e \<longrightarrow> sint r < 0) \<and>
           r \<noteq> - 1))"
proof (intro conjI impI)
  assume a: "plaintext_len \<noteq> 0 \<and> length p = unat plaintext_len \<and> length out = length p + 40"
  obtain env h' where seal: "encrypt_file eng (Some p) plaintext_len (Some key) (Some out) h =
           Some (plaintext_len + 40, Some env, h')" and le0: "length env = length out"
    using encrypt_file_returns[OF _ _ key, of plaintext_len p out eng h] a by auto
  have le: "length env = length p + 40" using le0 a by simp
  have r1: "sint (plaintext_len + 40) = int (length env) \<longleftrightarrow> length env \<le> 2147483647"
    unfolding le using seal_return_value(1)[of plaintext_len] a by simp
  have r2: "2147483647 < length env \<and> length env < 4294967296 \<longrightarrow> sint (plaintext_len + 40) < 0"
    unfolding le using seal_return_value(2)[of plaintext_len] a by simp
  have r3: "length p = 4294967255 \<longrightarrow> plaintext_len + 40 = - 1"
  proof
    assume "length p = 4294967255"
    with a have "unat plaintext_len = unat (4294967255 :: size_t)" by simp
    then have "plaintext_len = 4294967255" by (simp only: word_unat_eq_iff)
    then show "plaintext_len + 40 = - 1" by simp
  qed
  show "\<exists>r env h'.
           encrypt_file eng (Some p) plaintext_len (Some key) (Some out) h = Some (r, Some env, h') \<and>
           length env = length p + 40 \<and>
           (sint r = int (length env) \<longleftrightarrow> length env \<le> 2147483647) \<and>
           (2147483647 < length env \<and> length env < 4294967296 \<longrightarrow> sint r < 0) \<and>
           (length p = 4294967255 \<longrightarrow> r = - 1)"
    using seal le r1 r2 r3 by blast
next
  assume a: "\<not> encrypted_len < 40 \<and> length e = unat encrypted_len \<and> length pt = length e - 40 \<and>
      fst (aead_unlock eng pt (env_mac e) key (env_nonce e) [] (env_ciphertext e)) = 0"
  let ?plain = "snd (aead_unlock eng pt (env_mac e) key (env_nonce e) [] (env_ciphertext e))"
  have ge: "40 \<le> length e" using a by (simp add: word_less_nat_alt)
  have ln: "length (env_nonce e) = 24" using ge by (simp add: env_nonce_def)
  have lc: "length (env_ciphertext e) = length e - 40" using ge by (simp add: env_ciphertext_def)
  have lp: "length ?plain = length e - 40"
    using aead_sizesD(3)[OF eng key ln, of pt "env_ciphertext e"] a lc by simp
  have run: "decrypt_file eng (Some e) encrypted_len (Some key) (Some pt) h =
           Some (encrypted_len - 40, Some ?plain, opened_host key e h)"
    using decrypt_file_run[of encrypted_len e key pt eng h] a key lp by (simp add: store_whole)
  have r1: "sint (encrypted_len - 40) = int (length ?plain) \<longleftrightarrow> length e \<le> 2147483647 + 40"
    unfolding lp using open_return_value(1)[of encrypted_len] a by simp
  have r2: "2147483647 + 40 < length e \<longrightarrow> sint (encrypted_len - 40) < 0"
    using open_return_value(2)[of encrypted_len] a by simp
  have r3: "encrypted_len - 40 \<noteq> - 1"
    using open_return_value(3)[of encrypted_len] a by simp
  show "\<exists>r pt' h'.
           decrypt_file eng (Some e) encrypted_len (Some key) (Some pt) h = Some (r, Some pt', h') \<and>
           length pt' = length e - 40 \<and>
           (sint r = int (length pt') \<longleftrightarrow> length e \<le> 2147483647 + 40) \<and>
           (2147483647 + 40 < length e \<longrightarrow> sint r < 0) \<and>
           r \<noteq> - 1"
    using run lp r1 r2 r3 by blast
qed

theorem int_cast_overflow_witness:
  "(\<exists>r env h'.
      encrypt_file xor_engine (Some (replicate 4294967255 0)) 4294967255 (Some (replicate 32 0))
        (Some (replicate 4294967295 0)) test_host = Some (r, Some env, h') \<and>
      length env = 4294967295 \<and> sint r \<noteq> int (length env) \<and> r = - 1) \<and>
   (\<exists>r pt' h'.
      decrypt_file xor_engine
        (Some (replicate 24 0 @ snd (xor_lock (replicate 32 0) (replicate 24 0) [] (replicate 2147483648 0))
                 @ fst (xor_lock (replicate 32 0) (replicate 24 0) [] (replicate 2147483648 0))))
        2147483688 (Some (replicate 32 0)) (Some (replicate 2147483648 0)) test_host
        = Some (r, Some pt', h') \<and>
      length pt' = 2147483648 \<and> sint r < 0 \<and> r \<noteq> - 1)"
proof -
  let ?k = "replicate 32 (0::byte)"
  let ?n = "replicate 24 (0::byte)"
  let ?p = "replicate 2147483648 (0::byte)"
  let ?e = "?n @ snd (xor_lock ?k ?n [] ?p) @ fst (xor_lock ?k ?n [] ?p)"
  have le: "length ?e = 2147483688"
    by (simp add: xor_lock_def length_xor_mac)
  have acc: "fst (aead_unlock xor_engine ?p (env_mac ?e) ?k (env_nonce ?e) [] (env_ciphertext ?e)) = 0"
    by (subst xor_envelope_accepted[where p = ?p and nonce = ?n]) simp_all
  have k: "length ?k = 32" by simp
  note t = int_cast_overflow[OF xor_engine_sizes k, of 4294967255 "replicate 4294967255 0"
      "replicate 4294967295 0" test_host 2147483688 ?e ?p]
  have h1: "(4294967255 :: size_t) \<noteq> 0 \<and>
      length (replicate 4294967255 (0::byte)) = unat (4294967255 :: size_t) \<and>
      length (replicate 4294967295 (0::byte)) = length (replicate 4294967255 (0::byte)) + 40"
    by simp
  have h2: "\<not> (2147483688 :: size_t) < 40 \<and> length ?e = unat (2147483688 :: size_t) \<and>
      length ?p = length ?e - 40 \<and>
      fst (aead_unlock xor_engine ?p (env_mac ?e) ?k (env_nonce ?e) [] (env_ciphertext ?e)) = 0"
    using acc le by simp
  from t[THEN conjunct1, THEN mp, OF h1] obtain r env h' where
    s: "encrypt_file xor_engine (Some (replicate 4294967255 0)) 4294967255 (Some (replicate 32 0))
        (Some (replicate 4294967295 0)) test_host = Some (r, Some env, h')"
      "length env = length (replicate 4294967255 (0::byte)) + 40"
      "sint r = int (length env) \<longleftrightarrow> length env \<le> 2147483647"
      "length (replicate 4294967255 (0::byte)) = 4294967255 \<longrightarrow> r = - 1"
    by blast
  from s have 1: "\<exists>r env h'.
      encrypt_file xor_engine (Some (replicate 4294967255 0)) 4294967255 (Some (replicate 32 0))
        (Some (replicate 4294967295 0)) test_host = Some (r, Some env, h') \<and>
      length env = 4294967295 \<and> sint r \<noteq> int (length env) \<and> r = - 1"
    by (intro exI[of _ r] exI[of _ env] exI[of _ h']) simp
  from t[THEN conjunct2, THEN mp, OF h2] obtain r' pt' h'' where
    d: "decrypt_file xor_engine (Some ?e) 2147483688 (Some ?k) (Some ?p) test_host
          = Some (r', Some pt', h'')"
      "length pt' = length ?e - 40"
      "2147483647 + 40 < length ?e \<longrightarrow> sint r' < 0"
      "r' \<noteq> - 1"
    by blast
  from d le have 2: "\<exists>r pt' h'.
      decrypt_file xor_engine (Some ?e) 2147483688 (Some ?k) (Some ?p) test_host
        = Some (r, Some pt', h') \<and>
      length pt' = 2147483648 \<and> sint r < 0 \<and> r \<noteq> - 1"
    by (intro exI[of _ r'] exI[of _ pt'] exI[of _ h'']) simp
  from 1 2 show ?thesis by (rule conjI)
qed

end
